theory Spec2Isabelle
  imports Complex_Main "HOL-Library.Multiset"
begin

section \<open>Strings\<close>

text \<open>
  JavaScript strings are modelled as \<open>string\<close>, one \<open>char\<close> per code unit; the
  e-mail addresses, employee ids and passwords of the application are ASCII text.
  \<open>toLowerCase\<close> maps the letters A to Z to a to z and leaves every other code unit alone.
\<close>

definition toLowerChar :: "char \<Rightarrow> char" where
  "toLowerChar c =
     (case map_of (zip ''ABCDEFGHIJKLMNOPQRSTUVWXYZ'' ''abcdefghijklmnopqrstuvwxyz'') c of
        Some l \<Rightarrow> l
      | None \<Rightarrow> c)"

definition toLowerCase :: "string \<Rightarrow> string" where
  "toLowerCase s = map toLowerChar s"

text \<open>The white space of \<open>\\s\<close> and of \<open>String.prototype.trim\<close> among these code units.\<close>

definition isSpace :: "char \<Rightarrow> bool" where
  "isSpace c = (c \<in> set [CHR 0x09, CHR 0x0A, CHR 0x0B, CHR 0x0C, CHR 0x0D, CHR 0x20, CHR 0xA0])"

definition trim :: "string \<Rightarrow> string" where
  "trim s = rev (dropWhile isSpace (rev (dropWhile isSpace s)))"

fun join :: "string \<Rightarrow> string list \<Rightarrow> string" where
  "join sep [] = []"
| "join sep [x] = x"
| "join sep (x # y # ys) = x @ sep @ join sep (y # ys)"

text \<open>\<open>Number.prototype.toString\<close> on a non-negative integer: its decimal digits.\<close>

fun toString :: "nat \<Rightarrow> string" where
  "toString n =
     (if n < 10 then [''0123456789'' ! n]
      else toString (n div 10) @ [''0123456789'' ! (n mod 10)])"

declare toString.simps [simp del]

text \<open>
  The pattern \<open>/^[^\\s@]+@[^\\s@]+\\.[^\\s@]+$/\<close>, as a backtracking matcher in
  continuation style: \<open>matchPlus p k\<close> is \<open>[p]+\<close> followed by \<open>k\<close>, \<open>matchChar x k\<close>
  is the character \<open>x\<close> followed by \<open>k\<close>, and the last continuation is \<open>$\<close>.
\<close>

fun matchPlus :: "(char \<Rightarrow> bool) \<Rightarrow> (string \<Rightarrow> bool) \<Rightarrow> string \<Rightarrow> bool" where
  "matchPlus p k [] = False"
| "matchPlus p k (c # cs) = (p c \<and> (k cs \<or> matchPlus p k cs))"

fun matchChar :: "char \<Rightarrow> (string \<Rightarrow> bool) \<Rightarrow> string \<Rightarrow> bool" where
  "matchChar x k [] = False"
| "matchChar x k (c # cs) = (c = x \<and> k cs)"

definition notSpaceAt :: "char \<Rightarrow> bool" where
  "notSpaceAt c = (\<not> isSpace c \<and> c \<noteq> CHR ''@'')"

definition emailPattern_test :: "string \<Rightarrow> bool" where
  "emailPattern_test s =
     matchPlus notSpaceAt (matchChar CHR ''@''
       (matchPlus notSpaceAt (matchChar CHR ''.''
         (matchPlus notSpaceAt (\<lambda>r. r = []))))) s"

section \<open>Data model (AuthContext.tsx, AdminPortal.tsx, UserPortal.tsx)\<close>

text \<open>A \<open>Date\<close> is its time value in milliseconds; an optional field is an \<open>option\<close>.\<close>

type_synonym date = nat

record User =
  u_id :: string
  u_email :: string
  u_name :: string
  u_phone :: string
  u_employeeId :: string
  u_location :: string
  u_isAdmin :: bool
  u_groups :: "string list"
  u_password :: "string option"
  u_passwordGeneratedAt :: "date option"
  u_createdBy :: "string option"
  u_createdAt :: "date option"

record Group =
  g_id :: string
  g_name :: string
  g_description :: string
  g_members :: "string list"
  g_createdBy :: string

record MCQQuestion =
  q_question :: string
  q_options :: "string list"
  q_correctAnswer :: string

record MCQResponse =
  r_id :: string
  r_messageId :: string
  r_userId :: string
  r_userName :: string
  r_userEmail :: string
  r_groupId :: string
  r_selectedAnswer :: string
  r_timestamp :: date
  r_isCorrect :: bool

record GeneratedPassword =
  gp_userId :: string
  gp_userName :: string
  gp_email :: string
  gp_password :: string

text \<open>
  What \<open>localStorage.getItem\<close> followed by \<open>JSON.parse\<close> can give for one key:
  nothing (\<open>null\<close>, or the empty string, both falsy), a payload on which parsing or the
  processing of the parsed value throws, or a well-formed value.
\<close>

datatype 'a item = Missing | Corrupt | Stored 'a

record localStorage =
  systemUsers :: "User list item"
  currentUser :: "User item"
  systemMCQResponses :: "MCQResponse list item"
  quotaExceeded :: bool

text \<open>\<open>localStorage.setItem('currentUser', ...)\<close>: throws when the quota is exceeded.\<close>

definition setItem_currentUser :: "User \<Rightarrow> localStorage \<Rightarrow> localStorage option" where
  "setItem_currentUser v st =
     (if quotaExceeded st then None else Some (st\<lparr>currentUser := Stored v\<rparr>))"

definition setItem_systemMCQResponses ::
  "MCQResponse list \<Rightarrow> localStorage \<Rightarrow> localStorage option" where
  "setItem_systemMCQResponses v st =
     (if quotaExceeded st then None else Some (st\<lparr>systemMCQResponses := Stored v\<rparr>))"

definition removeItem_currentUser :: "localStorage \<Rightarrow> localStorage" where
  "removeItem_currentUser st = st\<lparr>currentUser := Missing\<rparr>"

section \<open>AuthContext.tsx\<close>

text \<open>\<open>initialUsers\<close>; the argument is the time at which the module was loaded.\<close>

definition initialUsers :: "date \<Rightarrow> User list" where
  "initialUsers t0 =
     [\<lparr>u_id = ''1'', u_email = ''admin@company.com'', u_name = ''System Admin'',
       u_phone = ''+1234567890'', u_employeeId = ''ADMIN001'', u_location = ''Head Office'',
       u_isAdmin = True, u_groups = [], u_password = Some ''admin123'',
       u_passwordGeneratedAt = Some t0, u_createdBy = Some ''system'',
       u_createdAt = Some t0\<rparr>]"

definition loadUsersFromStorage :: "date \<Rightarrow> localStorage \<Rightarrow> User list" where
  "loadUsersFromStorage t0 st =
     (case systemUsers st of
        Stored processedUsers \<Rightarrow> processedUsers
      | Missing \<Rightarrow> initialUsers t0
      | Corrupt \<Rightarrow> initialUsers t0)"

text \<open>
  The state of \<open>AuthProvider\<close>: its three \<open>useState\<close> cells and the browser storage.
  The definitions below are the bodies of the callbacks. The two effects that React runs
  after \<open>allUsers\<close> has changed (\<open>saveUsersToStorage\<close> and \<open>loadCurrentUser\<close>) are
  functions of their own in the source and no callback calls them.
\<close>

record auth_state =
  user :: "User option"
  isLoading :: bool
  allUsers :: "User list"
  storage :: localStorage

definition refreshUserData :: "date \<Rightarrow> auth_state \<Rightarrow> auth_state" where
  "refreshUserData t0 s = s\<lparr>allUsers := loadUsersFromStorage t0 (storage s)\<rparr>"

text \<open>
  \<open>login\<close> returns the promised boolean and the state it leaves. The \<open>catch\<close> branch is
  reached when writing the session throws, after \<open>setUser\<close> has already run.
\<close>

definition login :: "date \<Rightarrow> string \<Rightarrow> string \<Rightarrow> auth_state \<Rightarrow> bool \<times> auth_state" where
  "login t0 email password s =
     (let s0 = s\<lparr>isLoading := True\<rparr>;
          currentUsers = loadUsersFromStorage t0 (storage s0);
          foundUser = find (\<lambda>u. toLowerCase (u_email u) = toLowerCase email) currentUsers
      in case foundUser of
           Some fu \<Rightarrow>
             if u_password fu = Some password then
               (let userForStorage = fu\<lparr>u_password := None\<rparr>;
                    s1 = s0\<lparr>user := Some userForStorage\<rparr>
                in case setItem_currentUser userForStorage (storage s1) of
                     Some st \<Rightarrow> (True, s1\<lparr>storage := st, isLoading := False\<rparr>)
                   | None \<Rightarrow> (False, s1\<lparr>isLoading := False\<rparr>))
             else (False, s0\<lparr>isLoading := False\<rparr>)
         | None \<Rightarrow> (False, s0\<lparr>isLoading := False\<rparr>))"

definition logout :: "auth_state \<Rightarrow> auth_state" where
  "logout s = s\<lparr>user := None, storage := removeItem_currentUser (storage s)\<rparr>"

text \<open>
  The updater functions handed to \<open>setAllUsers\<close>; \<open>now\<close> is the value of \<open>new Date()\<close>
  at the update.
\<close>

definition setAllUsers :: "(User list \<Rightarrow> User list) \<Rightarrow> auth_state \<Rightarrow> auth_state" where
  "setAllUsers f s = s\<lparr>allUsers := f (allUsers s)\<rparr>"

definition sameIdentity :: "User \<Rightarrow> User \<Rightarrow> bool" where
  "sameIdentity newUser u =
     (toLowerCase (u_email u) = toLowerCase (u_email newUser) \<or>
      u_employeeId u = u_employeeId newUser)"

definition addUser :: "date \<Rightarrow> User \<Rightarrow> User list \<Rightarrow> User list" where
  "addUser now newUser prevUsers =
     (let exists = list_ex (sameIdentity newUser) prevUsers
      in if exists then prevUsers
         else (let userWithDate = newUser\<lparr>u_createdAt := Some now\<rparr>;
                   updatedUsers = prevUsers @ [userWithDate]
               in updatedUsers))"

definition addUsers :: "date \<Rightarrow> User list \<Rightarrow> User list \<Rightarrow> User list" where
  "addUsers now newUsers prevUsers =
     (let validUsers = filter (\<lambda>newUser. \<not> list_ex (sameIdentity newUser) prevUsers) newUsers;
          usersWithDates = map (\<lambda>u. u\<lparr>u_createdAt := Some now\<rparr>) validUsers
      in prevUsers @ usersWithDates)"

text \<open>
  \<open>Partial<User>\<close>: a field that is \<open>None\<close> is a key the object does not have. The
  spread \<open>{ ...u, ...updates }\<close> overwrites the keys that \<open>updates\<close> has.
\<close>

record Partial_User =
  p_id :: "string option"
  p_email :: "string option"
  p_name :: "string option"
  p_phone :: "string option"
  p_employeeId :: "string option"
  p_location :: "string option"
  p_isAdmin :: "bool option"
  p_groups :: "string list option"
  p_password :: "string option option"
  p_passwordGeneratedAt :: "date option option"
  p_createdBy :: "string option option"
  p_createdAt :: "date option option"

definition orElse :: "'a option \<Rightarrow> 'a \<Rightarrow> 'a" where
  "orElse x d = (case x of Some v \<Rightarrow> v | None \<Rightarrow> d)"

definition spread :: "User \<Rightarrow> Partial_User \<Rightarrow> User" where
  "spread u updates =
     \<lparr>u_id = orElse (p_id updates) (u_id u),
      u_email = orElse (p_email updates) (u_email u),
      u_name = orElse (p_name updates) (u_name u),
      u_phone = orElse (p_phone updates) (u_phone u),
      u_employeeId = orElse (p_employeeId updates) (u_employeeId u),
      u_location = orElse (p_location updates) (u_location u),
      u_isAdmin = orElse (p_isAdmin updates) (u_isAdmin u),
      u_groups = orElse (p_groups updates) (u_groups u),
      u_password = orElse (p_password updates) (u_password u),
      u_passwordGeneratedAt = orElse (p_passwordGeneratedAt updates) (u_passwordGeneratedAt u),
      u_createdBy = orElse (p_createdBy updates) (u_createdBy u),
      u_createdAt = orElse (p_createdAt updates) (u_createdAt u)\<rparr>"

definition noUpdates :: Partial_User where
  "noUpdates =
     \<lparr>p_id = None, p_email = None, p_name = None, p_phone = None, p_employeeId = None,
      p_location = None, p_isAdmin = None, p_groups = None, p_password = None,
      p_passwordGeneratedAt = None, p_createdBy = None, p_createdAt = None\<rparr>"

definition updateUser :: "string \<Rightarrow> Partial_User \<Rightarrow> User list \<Rightarrow> User list" where
  "updateUser userId updates prevUsers =
     map (\<lambda>u. if u_id u = userId then spread u updates else u) prevUsers"

definition updateUserPassword :: "date \<Rightarrow> string \<Rightarrow> string \<Rightarrow> User list \<Rightarrow> User list" where
  "updateUserPassword now userId newPassword prevUsers =
     map (\<lambda>u. if u_id u = userId
               then u\<lparr>u_password := Some newPassword, u_passwordGeneratedAt := Some now\<rparr>
               else u) prevUsers"

definition deleteUser :: "string \<Rightarrow> auth_state \<Rightarrow> auth_state" where
  "deleteUser userId s =
     (let s1 = setAllUsers (filter (\<lambda>u. u_id u \<noteq> userId)) s
      in if map_option u_id (user s) = Some userId then logout s1 else s1)"

definition getAllUsers :: "auth_state \<Rightarrow> User list" where
  "getAllUsers s = allUsers s"

definition getUserByEmail :: "string \<Rightarrow> auth_state \<Rightarrow> User option" where
  "getUserByEmail email s =
     find (\<lambda>u. toLowerCase (u_email u) = toLowerCase email) (allUsers s)"

definition getUserByEmployeeId :: "string \<Rightarrow> auth_state \<Rightarrow> User option" where
  "getUserByEmployeeId employeeId s = find (\<lambda>u. u_employeeId u = employeeId) (allUsers s)"

section \<open>AdminPortal.tsx\<close>

text \<open>
  The state the handlers read and write: the \<open>AuthProvider\<close> context, the \<open>groups\<close>
  cell, the last upload report and the list of generated passwords. The form cells
  (\<open>newUser\<close>, \<open>newGroup\<close>) are arguments of the handlers; the value of \<open>Date.now()\<close> and
  the generated password are arguments too.
\<close>

record RowData =
  row_Name :: "string option"
  row_Email :: "string option"
  row_Phone :: "string option"
  row_EmployeeID :: "string option"
  row_Location :: "string option"
  row_IsAdmin :: "string option"

record RowError =
  e_row :: nat
  e_error :: string
  e_data :: "RowData option"

record BulkUploadResult =
  res_success :: "User list"
  res_errors :: "RowError list"
  res_passwords :: "GeneratedPassword list"

record admin_state =
  auth :: auth_state
  groups :: "Group list"
  generatedPasswords :: "GeneratedPassword list"
  uploadResult :: "BulkUploadResult option"

record NewUserForm =
  f_email :: string
  f_name :: string
  f_phone :: string
  f_employeeId :: string
  f_location :: string
  f_isAdmin :: bool

record NewGroupForm =
  f_groupName :: string
  f_description :: string

text \<open>\<open>user?.id || d\<close>: the id of the session user, or \<open>d\<close> when there is none or it is empty.\<close>

definition sessionIdOr :: "string \<Rightarrow> auth_state \<Rightarrow> string" where
  "sessionIdOr d s =
     (case user s of None \<Rightarrow> d | Some su \<Rightarrow> if u_id su = [] then d else u_id su)"

text \<open>The handlers that can call \<open>alert\<close> return the message with the state.\<close>

definition handleCreateUser ::
  "date \<Rightarrow> string \<Rightarrow> NewUserForm \<Rightarrow> admin_state \<Rightarrow> string option \<times> admin_state" where
  "handleCreateUser now password newUser s =
     (let existingUser =
            (case getUserByEmail (f_email newUser) (auth s) of
               Some u \<Rightarrow> Some u
             | None \<Rightarrow> getUserByEmployeeId (f_employeeId newUser) (auth s))
      in if existingUser \<noteq> None
         then (Some ''User with this email or employee ID already exists!'', s)
         else
           (let newUserData =
                  \<lparr>u_id = toString now, u_email = f_email newUser, u_name = f_name newUser,
                   u_phone = f_phone newUser, u_employeeId = f_employeeId newUser,
                   u_location = f_location newUser, u_isAdmin = f_isAdmin newUser,
                   u_groups = [], u_password = Some password,
                   u_passwordGeneratedAt = Some now,
                   u_createdBy = Some (sessionIdOr ''unknown'' (auth s)),
                   u_createdAt = None\<rparr>
            in (None,
                s\<lparr>auth := setAllUsers (addUser now newUserData) (auth s),
                  generatedPasswords :=
                    [\<lparr>gp_userId = u_id newUserData, gp_userName = u_name newUserData,
                      gp_email = u_email newUserData, gp_password = password\<rparr>]\<rparr>)))"

definition handleCreateGroup ::
  "date \<Rightarrow> NewGroupForm \<Rightarrow> admin_state \<Rightarrow> string option \<times> admin_state" where
  "handleCreateGroup now newGroup s =
     (if trim (f_groupName newGroup) = [] then (Some ''Group name is required'', s)
      else
        (let group = \<lparr>g_id = toString now, g_name = f_groupName newGroup,
                      g_description = f_description newGroup, g_members = [],
                      g_createdBy = sessionIdOr [] (auth s)\<rparr>
         in (None, s\<lparr>groups := groups s @ [group]\<rparr>)))"

definition handleAddUserToGroup :: "string \<Rightarrow> string \<Rightarrow> admin_state \<Rightarrow> admin_state" where
  "handleAddUserToGroup userId groupId s =
     (let allSystemUsers = getAllUsers (auth s);
          currentUser = find (\<lambda>u. u_id u = userId) allSystemUsers;
          s1 = (case currentUser of
                  Some cu \<Rightarrow>
                    if groupId \<notin> set (u_groups cu)
                    then s\<lparr>auth := setAllUsers
                           (updateUser userId (noUpdates\<lparr>p_groups := Some (u_groups cu @ [groupId])\<rparr>))
                           (auth s)\<rparr>
                    else s
                | None \<Rightarrow> s)
      in s1\<lparr>groups :=
              map (\<lambda>g. if g_id g = groupId \<and> userId \<notin> set (g_members g)
                        then g\<lparr>g_members := g_members g @ [userId]\<rparr>
                        else g) (groups s)\<rparr>)"

definition handleRemoveUserFromGroup :: "string \<Rightarrow> string \<Rightarrow> admin_state \<Rightarrow> admin_state" where
  "handleRemoveUserFromGroup userId groupId s =
     (let allSystemUsers = getAllUsers (auth s);
          currentUser = find (\<lambda>u. u_id u = userId) allSystemUsers;
          s1 = (case currentUser of
                  Some cu \<Rightarrow>
                    s\<lparr>auth := setAllUsers
                        (updateUser userId
                           (noUpdates\<lparr>p_groups := Some (filter (\<lambda>gId. gId \<noteq> groupId) (u_groups cu))\<rparr>))
                        (auth s)\<rparr>
                | None \<Rightarrow> s)
      in s1\<lparr>groups :=
              map (\<lambda>g. if g_id g = groupId
                        then g\<lparr>g_members := filter (\<lambda>m. m \<noteq> userId) (g_members g)\<rparr>
                        else g) (groups s)\<rparr>)"

definition handlePasswordRegenerate ::
  "date \<Rightarrow> string \<Rightarrow> string \<Rightarrow> admin_state \<Rightarrow> admin_state" where
  "handlePasswordRegenerate now userId newPassword s =
     (let s1 = s\<lparr>auth := setAllUsers (updateUserPassword now userId newPassword) (auth s)\<rparr>
      in case find (\<lambda>u. u_id u = userId) (getAllUsers (auth s)) of
           Some userData \<Rightarrow>
             s1\<lparr>generatedPasswords :=
                  [\<lparr>gp_userId = userId, gp_userName = u_name userData,
                    gp_email = u_email userData, gp_password = newPassword\<rparr>]\<rparr>
         | None \<Rightarrow> s1)"

text \<open>\<open>confirmed\<close> is the answer to \<open>window.confirm\<close>.\<close>

definition handleDeleteUser :: "bool \<Rightarrow> string \<Rightarrow> admin_state \<Rightarrow> admin_state" where
  "handleDeleteUser confirmed userId s =
     (if confirmed
      then (let s1 = s\<lparr>groups :=
                        map (\<lambda>g. g\<lparr>g_members := filter (\<lambda>m. m \<noteq> userId) (g_members g)\<rparr>)
                          (groups s)\<rparr>
            in s1\<lparr>auth := deleteUser userId (auth s1)\<rparr>)
      else s)"

subsection \<open>Bulk upload\<close>

text \<open>
  A row of the sheet: a cell is \<open>None\<close> when the row object lacks the key, else its text.
  \<open>getUserByEmail(undefined)\<close> throws a \<open>TypeError\<close> in the callback of \<open>find\<close>, which
  runs once there is a user to look at; \<open>processBulkUpload\<close> catches it.
\<close>

datatype exn = TypeError

definition blank :: "string option \<Rightarrow> bool" where
  "blank cell = (case cell of None \<Rightarrow> True | Some v \<Rightarrow> v = [] \<or> trim v = [])"

definition validateUserData :: "auth_state \<Rightarrow> RowData \<Rightarrow> nat \<Rightarrow> exn + string list" where
  "validateUserData a userData rowIndex =
     (let e1 = (if blank (row_Name userData) then [''Name is required''] else []);
          e2 = (if blank (row_Email userData) then [''Email is required'']
                else if \<not> emailPattern_test (orElse (row_Email userData) [])
                     then [''Invalid email format''] else []);
          e3 = (if blank (row_EmployeeID userData) then [''Employee ID is required''] else []);
          e4 = (if blank (row_Phone userData) then [''Phone is required''] else []);
          e5 = (if blank (row_Location userData) then [''Location is required''] else []);
          errors = e1 @ e2 @ e3 @ e4 @ e5;
          byId = (case row_EmployeeID userData of
                    Some i \<Rightarrow> getUserByEmployeeId i a
                  | None \<Rightarrow> None)
      in case row_Email userData of
           None \<Rightarrow>
             if allUsers a \<noteq> [] then Inl TypeError
             else Inr (errors @ (if byId \<noteq> None then [''Email or Employee ID already exists''] else []))
         | Some email \<Rightarrow>
             (let existingUser = (case getUserByEmail email a of Some u \<Rightarrow> Some u | None \<Rightarrow> byId)
              in Inr (errors @
                      (if existingUser \<noteq> None then [''Email or Employee ID already exists'']
                       else []))))"

text \<open>
  The loop of \<open>processBulkUpload\<close> from row \<open>i\<close> on: \<open>clock i\<close> is \<open>Date.now()\<close> and
  \<open>pwd i\<close> the generated password in iteration \<open>i\<close>.
\<close>

definition cellText :: "string option \<Rightarrow> string" where
  "cellText cell = (case cell of Some v \<Rightarrow> trim v | None \<Rightarrow> [])"

fun processRows ::
  "auth_state \<Rightarrow> (nat \<Rightarrow> date) \<Rightarrow> (nat \<Rightarrow> string) \<Rightarrow> nat \<Rightarrow> RowData list \<Rightarrow>
   BulkUploadResult \<Rightarrow> exn + BulkUploadResult" where
  "processRows a clock pwd i [] result = Inr result"
| "processRows a clock pwd i (userData # rest) result =
     (case validateUserData a userData (i + 2) of
        Inl e \<Rightarrow> Inl e
      | Inr validationErrors \<Rightarrow>
          if length validationErrors > 0
          then processRows a clock pwd (i + 1) rest
                 (result\<lparr>res_errors := res_errors result @
                    [\<lparr>e_row = i + 2, e_error = join '', '' validationErrors,
                      e_data = Some userData\<rparr>]\<rparr>)
          else
            (let password = pwd i;
                 newUser =
                   \<lparr>u_id = toString (clock i) @ ''_'' @ toString i,
                    u_email = toLowerCase (cellText (row_Email userData)),
                    u_name = cellText (row_Name userData),
                    u_phone = cellText (row_Phone userData),
                    u_employeeId = cellText (row_EmployeeID userData),
                    u_location = cellText (row_Location userData),
                    u_isAdmin =
                      (map_option toLowerCase (row_IsAdmin userData) = Some ''true''),
                    u_groups = [], u_password = Some password,
                    u_passwordGeneratedAt = Some (clock i),
                    u_createdBy = Some (sessionIdOr ''bulk-upload'' a),
                    u_createdAt = None\<rparr>
             in processRows a clock pwd (i + 1) rest
                  (result\<lparr>res_success := res_success result @ [newUser],
                          res_passwords := res_passwords result @
                            [\<lparr>gp_userId = u_id newUser, gp_userName = u_name newUser,
                              gp_email = u_email newUser, gp_password = password\<rparr>]\<rparr>)))"

definition processBulkUpload ::
  "(nat \<Rightarrow> date) \<Rightarrow> (nat \<Rightarrow> string) \<Rightarrow> date \<Rightarrow> RowData list \<Rightarrow> admin_state \<Rightarrow> admin_state" where
  "processBulkUpload clock pwd now jsonData s =
     (case processRows (auth s) clock pwd 0 jsonData
             \<lparr>res_success = [], res_errors = [], res_passwords = []\<rparr> of
        Inr result \<Rightarrow>
          (let s1 = s\<lparr>auth := setAllUsers (addUsers now (res_success result)) (auth s),
                      uploadResult := Some result\<rparr>
           in if length (res_passwords result) > 0
              then s1\<lparr>generatedPasswords := res_passwords result\<rparr>
              else s1)
      | Inl e \<Rightarrow>
          s\<lparr>uploadResult :=
              Some \<lparr>res_success = [],
                    res_errors =
                      [\<lparr>e_row = 0,
                        e_error = ''Failed to process file. Please ensure it's a valid Excel file.'',
                        e_data = None\<rparr>],
                    res_passwords = []\<rparr>\<rparr>)"

section \<open>UserPortal.tsx\<close>

record user_portal_state =
  up_auth :: auth_state
  responses :: "MCQResponse list"
  selectedGroup :: "string option"

text \<open>\<open>saveResponsesToStorage\<close> catches a failed write and only logs it.\<close>

definition saveResponsesToStorage :: "MCQResponse list \<Rightarrow> localStorage \<Rightarrow> localStorage" where
  "saveResponsesToStorage newResponses st =
     (case setItem_systemMCQResponses newResponses st of Some st' \<Rightarrow> st' | None \<Rightarrow> st)"

definition handleMCQAnswer ::
  "date \<Rightarrow> string \<Rightarrow> string \<Rightarrow> MCQQuestion \<Rightarrow> user_portal_state \<Rightarrow> user_portal_state" where
  "handleMCQAnswer now messageId selectedOption mcqData s =
     (case user (up_auth s) of
        None \<Rightarrow> s
      | Some usr \<Rightarrow>
          (let existingResponse =
                 find (\<lambda>r. r_messageId r = messageId \<and> r_userId r = u_id usr) (responses s)
           in if existingResponse \<noteq> None then s
              else
                (let isCorrect = (selectedOption = q_correctAnswer mcqData);
                     response =
                       \<lparr>r_id = toString now, r_messageId = messageId, r_userId = u_id usr,
                        r_userName = u_name usr, r_userEmail = u_email usr,
                        r_groupId = orElse (selectedGroup s) [],
                        r_selectedAnswer = selectedOption, r_timestamp = now,
                        r_isCorrect = isCorrect\<rparr>;
                     updatedResponses = responses s @ [response]
                 in s\<lparr>responses := updatedResponses,
                      up_auth := (up_auth s)\<lparr>storage :=
                        saveResponsesToStorage updatedResponses (storage (up_auth s))\<rparr>\<rparr>)))"

section \<open>PasswordGenerator.tsx\<close>

text \<open>
  \<open>rnd k\<close> is the value of the \<open>k\<close>-th call of \<open>Math.random()\<close>, and \<open>sortRandomly\<close> is
  \<open>split('').sort(() => Math.random() - 0.5).join('')\<close>, whose result depends on the
  engine's sorting algorithm. Indexing a string out of range gives \<open>undefined\<close>, which
  \<open>+=\<close> appends as text.
\<close>

definition lowercase :: string where
  "lowercase = ''abcdefghijklmnopqrstuvwxyz''"

definition uppercase :: string where
  "uppercase = ''ABCDEFGHIJKLMNOPQRSTUVWXYZ''"

definition numbers :: string where
  "numbers = ''0123456789''"

definition symbols :: string where
  "symbols = ''!@#$%^&*()_+-=[]{}|;:,.<>?''"

definition allChars :: string where
  "allChars = lowercase @ uppercase @ numbers @ symbols"

definition randomIndex :: "real \<Rightarrow> nat \<Rightarrow> nat" where
  "randomIndex r n = nat \<lfloor>r * real n\<rfloor>"

definition charAt :: "string \<Rightarrow> nat \<Rightarrow> string" where
  "charAt s i = (if i < length s then [s ! i] else ''undefined'')"

function fillRest :: "(nat \<Rightarrow> real) \<Rightarrow> nat \<Rightarrow> nat \<Rightarrow> string \<Rightarrow> string" where
  "fillRest rnd len i password =
     (if i < len
      then fillRest rnd len (i + 1)
             (password @ charAt allChars (randomIndex (rnd i) (length allChars)))
      else password)"
  by pat_completeness auto
termination
  by (relation "measure (\<lambda>(rnd, len, i, password). len - i)") auto

declare fillRest.simps [simp del]

definition generateSecurePassword :: "(string \<Rightarrow> string) \<Rightarrow> (nat \<Rightarrow> real) \<Rightarrow> nat \<Rightarrow> string" where
  "generateSecurePassword sortRandomly rnd len =
     (let p0 = [];
          p1 = p0 @ charAt lowercase (randomIndex (rnd 0) (length lowercase));
          p2 = p1 @ charAt uppercase (randomIndex (rnd 1) (length uppercase));
          p3 = p2 @ charAt numbers (randomIndex (rnd 2) (length numbers));
          p4 = p3 @ charAt symbols (randomIndex (rnd 3) (length symbols));
          password = fillRest rnd len 4 p4
      in sortRandomly password)"

text \<open>A password has a character of a class when one of its characters is in the alphabet.\<close>

definition hasCharFrom :: "string \<Rightarrow> string \<Rightarrow> bool" where
  "hasCharFrom alphabet password = list_ex (\<lambda>c. c \<in> set alphabet) password"

section \<open>Invariants and reachable states\<close>

text \<open>No two users share an e-mail address, compared in lower case, or an employee id.\<close>

definition uniqueIdentity :: "User list \<Rightarrow> bool" where
  "uniqueIdentity us =
     (distinct (map (\<lambda>u. toLowerCase (u_email u)) us) \<and> distinct (map u_employeeId us))"

text \<open>The user lists that the three repository operations produce from the seed.\<close>

inductive reachableUsers :: "date \<Rightarrow> User list \<Rightarrow> bool" for t0 :: date where
  seed: "reachableUsers t0 (initialUsers t0)"
| byAddUser: "reachableUsers t0 us \<Longrightarrow> reachableUsers t0 (addUser now newUser us)"
| byAddUsers: "reachableUsers t0 us \<Longrightarrow> reachableUsers t0 (addUsers now newUsers us)"
| byUpdateUser: "reachableUsers t0 us \<Longrightarrow> reachableUsers t0 (updateUser userId updates us)"

text \<open>
  The same, with batches that are free of collisions among themselves and with updates
  that have neither an \<open>email\<close> nor an \<open>employeeId\<close> key.
\<close>

inductive reachableUsersKeyed :: "date \<Rightarrow> User list \<Rightarrow> bool" for t0 :: date where
  seedK: "reachableUsersKeyed t0 (initialUsers t0)"
| byAddUserK: "reachableUsersKeyed t0 us \<Longrightarrow> reachableUsersKeyed t0 (addUser now newUser us)"
| byAddUsersK:
    "reachableUsersKeyed t0 us \<Longrightarrow> uniqueIdentity newUsers \<Longrightarrow>
     reachableUsersKeyed t0 (addUsers now newUsers us)"
| byUpdateUserK:
    "reachableUsersKeyed t0 us \<Longrightarrow> p_email updates = None \<Longrightarrow> p_employeeId updates = None \<Longrightarrow>
     reachableUsersKeyed t0 (updateUser userId updates us)"

text \<open>
  Both sides of a membership agree: a group's id is in a user's \<open>groups\<close> exactly when
  the user's id is in the group's \<open>members\<close>.
\<close>

definition membershipConsistent :: "admin_state \<Rightarrow> bool" where
  "membershipConsistent s =
     list_all (\<lambda>u. list_all (\<lambda>g. (g_id g \<in> set (u_groups u)) = (u_id u \<in> set (g_members g)))
        (groups s)) (allUsers (auth s))"

text \<open>An id that \<open>Date.now()\<close> yields is new: nothing in the state mentions it.\<close>

definition freshUserId :: "string \<Rightarrow> admin_state \<Rightarrow> bool" where
  "freshUserId i s =
     (list_all (\<lambda>u. u_id u \<noteq> i) (allUsers (auth s)) \<and>
      list_all (\<lambda>g. i \<notin> set (g_members g)) (groups s))"

definition freshGroupId :: "string \<Rightarrow> admin_state \<Rightarrow> bool" where
  "freshGroupId i s =
     (list_all (\<lambda>g. g_id g \<noteq> i) (groups s) \<and>
      list_all (\<lambda>u. i \<notin> set (u_groups u)) (allUsers (auth s)))"

text \<open>
  One side of a membership after a step: the group (the user) with that id is there and
  records the other id, or is there and does not record it.
\<close>

definition groupHasMember :: "string \<Rightarrow> string \<Rightarrow> admin_state \<Rightarrow> bool" where
  "groupHasMember groupId userId s =
     (list_ex (\<lambda>g. g_id g = groupId) (groups s) \<and>
      list_all (\<lambda>g. g_id g = groupId \<longrightarrow> userId \<in> set (g_members g)) (groups s))"

definition userHasGroup :: "string \<Rightarrow> string \<Rightarrow> admin_state \<Rightarrow> bool" where
  "userHasGroup userId groupId s =
     (list_ex (\<lambda>u. u_id u = userId) (allUsers (auth s)) \<and>
      list_all (\<lambda>u. u_id u = userId \<longrightarrow> groupId \<in> set (u_groups u)) (allUsers (auth s)))"

definition groupLacksMember :: "string \<Rightarrow> string \<Rightarrow> admin_state \<Rightarrow> bool" where
  "groupLacksMember groupId userId s =
     (list_ex (\<lambda>g. g_id g = groupId) (groups s) \<and>
      list_all (\<lambda>g. g_id g = groupId \<longrightarrow> userId \<notin> set (g_members g)) (groups s))"

definition userLacksGroup :: "string \<Rightarrow> string \<Rightarrow> admin_state \<Rightarrow> bool" where
  "userLacksGroup userId groupId s =
     (list_ex (\<lambda>u. u_id u = userId) (allUsers (auth s)) \<and>
      list_all (\<lambda>u. u_id u = userId \<longrightarrow> groupId \<notin> set (u_groups u)) (allUsers (auth s)))"

text \<open>
  The states of the admin portal: it starts with the seed users and no group, and each
  handler is one step.
\<close>

inductive reachableAdmin :: "date \<Rightarrow> admin_state \<Rightarrow> bool" for t0 :: date where
  start: "allUsers (auth s) = initialUsers t0 \<Longrightarrow> groups s = [] \<Longrightarrow> reachableAdmin t0 s"
| createUser:
    "reachableAdmin t0 s \<Longrightarrow> freshUserId (toString now) s \<Longrightarrow>
     reachableAdmin t0 (snd (handleCreateUser now password newUser s))"
| createGroup:
    "reachableAdmin t0 s \<Longrightarrow> freshGroupId (toString now) s \<Longrightarrow>
     reachableAdmin t0 (snd (handleCreateGroup now newGroup s))"
| addToGroup:
    "reachableAdmin t0 s \<Longrightarrow> reachableAdmin t0 (handleAddUserToGroup userId groupId s)"
| removeFromGroup:
    "reachableAdmin t0 s \<Longrightarrow> reachableAdmin t0 (handleRemoveUserFromGroup userId groupId s)"
| regenerate:
    "reachableAdmin t0 s \<Longrightarrow> reachableAdmin t0 (handlePasswordRegenerate now userId newPassword s)"
| delete:
    "reachableAdmin t0 s \<Longrightarrow> reachableAdmin t0 (handleDeleteUser confirmed userId s)"
| bulkUpload:
    "reachableAdmin t0 s \<Longrightarrow>
     list_all (\<lambda>i. freshUserId (toString (clock i) @ ''_'' @ toString i) s) [0..<length jsonData] \<Longrightarrow>
     reachableAdmin t0 (processBulkUpload clock pwd now jsonData s)"

text \<open>The responses of one user to one question, and the at-most-one invariant.\<close>

definition responsesFor :: "string \<Rightarrow> string \<Rightarrow> MCQResponse list \<Rightarrow> MCQResponse list" where
  "responsesFor messageId userId rs =
     filter (\<lambda>r. r_messageId r = messageId \<and> r_userId r = userId) rs"

definition onePerPair :: "MCQResponse list \<Rightarrow> bool" where
  "onePerPair rs = distinct (map (\<lambda>r. (r_messageId r, r_userId r)) rs)"

text \<open>The user that \<open>handleCreateUser\<close> builds from the form and \<open>addUser\<close> stamps.\<close>

definition formUser :: "date \<Rightarrow> string \<Rightarrow> NewUserForm \<Rightarrow> admin_state \<Rightarrow> User" where
  "formUser now pw d s = \<lparr>u_id = toString now, u_email = f_email d, u_name = f_name d,
                   u_phone = f_phone d, u_employeeId = f_employeeId d,
                   u_location = f_location d, u_isAdmin = f_isAdmin d,
                   u_groups = [], u_password = Some pw,
                   u_passwordGeneratedAt = Some now,
                   u_createdBy = Some (sessionIdOr ''unknown'' (auth s)),
                   u_createdAt = Some now\<rparr>"

section \<open>Example states\<close>

definition emptyStorage :: localStorage where
  "emptyStorage =
     \<lparr>systemUsers = Missing, currentUser = Missing, systemMCQResponses = Missing,
      quotaExceeded = False\<rparr>"

definition mountedAuth :: "date \<Rightarrow> auth_state" where
  "mountedAuth t0 =
     \<lparr>user = None, isLoading = False, allUsers = loadUsersFromStorage t0 emptyStorage,
      storage = emptyStorage\<rparr>"

definition bob :: User where
  "bob =
     \<lparr>u_id = ''1700000000000'', u_email = ''bob@company.com'', u_name = ''Bob'',
      u_phone = ''+15550100'', u_employeeId = ''EMP001'', u_location = ''Berlin'',
      u_isAdmin = False, u_groups = [], u_password = Some ''HappyTiger123'',
      u_passwordGeneratedAt = Some 1700000000000, u_createdBy = Some ''1'',
      u_createdAt = Some 1700000000000\<rparr>"

definition bobPortal :: user_portal_state where
  "bobPortal =
     \<lparr>up_auth = \<lparr>user = Some (bob\<lparr>u_password := None\<rparr>), isLoading = False,
                  allUsers = initialUsers 0 @ [bob], storage = emptyStorage\<rparr>,
      responses = [], selectedGroup = Some ''g1''\<rparr>"

definition capitalQuestion :: MCQQuestion where
  "capitalQuestion =
     \<lparr>q_question = ''Capital of France?'', q_options = [''Paris'', ''Rome'', ''Oslo'', ''Bern''],
      q_correctAnswer = ''Paris''\<rparr>"

definition adminPortal :: "date \<Rightarrow> admin_state" where
  "adminPortal t0 =
     \<lparr>auth = (mountedAuth t0)\<lparr>user := Some (hd (initialUsers t0)\<lparr>u_password := None\<rparr>)\<rparr>,
      groups = [], generatedPasswords = [], uploadResult = None\<rparr>"

definition bobForm :: NewUserForm where
  "bobForm =
     \<lparr>f_email = ''bob@company.com'', f_name = ''Bob'', f_phone = ''+15550100'',
      f_employeeId = ''EMP001'', f_location = ''Berlin'', f_isAdmin = False\<rparr>"

definition bobRow :: RowData where
  "bobRow =
     \<lparr>row_Name = Some ''Bob'', row_Email = Some ''bob@company.com'',
      row_Phone = Some ''+15550100'', row_EmployeeID = Some ''EMP001'',
      row_Location = Some ''Berlin'', row_IsAdmin = Some ''FALSE''\<rparr>"

definition robRow :: RowData where
  "robRow =
     \<lparr>row_Name = Some ''Rob'', row_Email = Some ''Bob@Company.com'',
      row_Phone = Some ''+15550101'', row_EmployeeID = Some ''EMP002'',
      row_Location = Some ''Bern'', row_IsAdmin = Some ''FALSE''\<rparr>"

definition salesForm :: NewGroupForm where
  "salesForm = \<lparr>f_groupName = ''Sales'', f_description = ''Sales team''\<rparr>"

definition salesPortal :: admin_state where
  "salesPortal =
     snd (handleCreateGroup 1700000000500 salesForm
       (snd (handleCreateUser 1700000000000 ''HappyTiger123'' bobForm (adminPortal 0))))"

section \<open>Auxiliary facts\<close>

lemma find_unique_key:
  "a \<in> set xs \<Longrightarrow> distinct (map f xs) \<Longrightarrow> find (\<lambda>u. f u = f a) xs = Some a"
  by (induction xs) (auto simp: image_iff)

lemma lower_ADMIN: "toLowerCase ''ADMIN@COMPANY.COM'' = ''admin@company.com''"
  by (simp add: toLowerCase_def toLowerChar_def)

lemma lower_admin: "toLowerCase ''admin@company.com'' = ''admin@company.com''"
  by (simp add: toLowerCase_def toLowerChar_def)

lemma load_mounted: "loadUsersFromStorage t0 (storage (mountedAuth t0)) = initialUsers t0"
  by (simp add: mountedAuth_def emptyStorage_def loadUsersFromStorage_def)

lemma mounted_fields:
  "allUsers (mountedAuth t0) = initialUsers t0" "user (mountedAuth t0) = None"
  "storage (mountedAuth t0) = emptyStorage"
  by (simp_all add: mountedAuth_def loadUsersFromStorage_def emptyStorage_def)

section \<open>Session: login\<close>

text \<open>
  Claim C4. When the users read from storage contain an account with the e-mail address
  admin@company.com and the password admin123, and e-mail addresses are unique up to case,
  then \<open>login("ADMIN@COMPANY.COM", "admin123")\<close> returns true, the session in memory and
  the persisted session are that account with the \<open>password\<close> field absent, and
  \<open>login("admin@company.com", "wrong")\<close> returns false. The session write is assumed not
  to hit the storage quota.
\<close>

theorem login_seed_admin:
  assumes present: "a \<in> set (loadUsersFromStorage t0 (storage s))"
    and email: "u_email a = ''admin@company.com''"
    and pw: "u_password a = Some ''admin123''"
    and uniq: "distinct (map (\<lambda>u. toLowerCase (u_email u)) (loadUsersFromStorage t0 (storage s)))"
    and writable: "\<not> quotaExceeded (storage s)"
  shows "login t0 ''ADMIN@COMPANY.COM'' ''admin123'' s =
           (True, s\<lparr>user := Some (a\<lparr>u_password := None\<rparr>),
                    storage := (storage s)\<lparr>currentUser := Stored (a\<lparr>u_password := None\<rparr>)\<rparr>,
                    isLoading := False\<rparr>)
         \<and> u_password (a\<lparr>u_password := None\<rparr>) = None
         \<and> fst (login t0 ''admin@company.com'' ''wrong'' s) = False"
proof -
  let ?us = "loadUsersFromStorage t0 (storage s)"
  have key: "toLowerCase (u_email a) = ''admin@company.com''"
    by (simp add: email lower_admin)
  have "find (\<lambda>u. toLowerCase (u_email u) = toLowerCase (u_email a)) ?us = Some a"
    using find_unique_key [OF present uniq] by simp
  then have found: "find (\<lambda>u. toLowerCase (u_email u) = ''admin@company.com'') ?us = Some a"
    by (simp add: key)
  have ok: "login t0 ''ADMIN@COMPANY.COM'' ''admin123'' s =
           (True, s\<lparr>user := Some (a\<lparr>u_password := None\<rparr>),
                    storage := (storage s)\<lparr>currentUser := Stored (a\<lparr>u_password := None\<rparr>)\<rparr>,
                    isLoading := False\<rparr>)"
    using found pw writable
    by (simp add: login_def Let_def lower_ADMIN setItem_currentUser_def)
  have bad: "fst (login t0 ''admin@company.com'' ''wrong'' s) = False"
    using found pw by (simp add: login_def Let_def lower_admin)
  show ?thesis using ok bad by simp
qed

theorem login_seed_admin_witness:
  "fst (login 0 ''ADMIN@COMPANY.COM'' ''admin123'' (mountedAuth 0)) = True
   \<and> map_option u_password (user (snd (login 0 ''ADMIN@COMPANY.COM'' ''admin123'' (mountedAuth 0))))
       = Some None
   \<and> fst (login 0 ''admin@company.com'' ''wrong'' (mountedAuth 0)) = False"
proof -
  let ?a = "hd (initialUsers 0)"
  have h1: "?a \<in> set (loadUsersFromStorage 0 (storage (mountedAuth 0)))"
    by (simp add: load_mounted initialUsers_def)
  have h2: "u_email ?a = ''admin@company.com''" by (simp add: initialUsers_def)
  have h3: "u_password ?a = Some ''admin123''" by (simp add: initialUsers_def)
  have h4: "distinct (map (\<lambda>u. toLowerCase (u_email u))
              (loadUsersFromStorage 0 (storage (mountedAuth 0))))"
    by (simp add: load_mounted initialUsers_def)
  have h5: "\<not> quotaExceeded (storage (mountedAuth 0))"
    by (simp add: mountedAuth_def emptyStorage_def)
  from login_seed_admin [OF h1 h2 h3 h4 h5] show ?thesis by simp
qed

text \<open>
  Claim C10. When no user read from storage has the given e-mail address up to case, or
  the first such user's password differs from the given one, \<open>login\<close> returns false and
  the user list, the session in memory and the whole storage (the persisted users and the
  persisted session) are what they were.
\<close>

theorem failed_login_changes_nothing:
  assumes "find (\<lambda>u. toLowerCase (u_email u) = toLowerCase email)
             (loadUsersFromStorage t0 (storage s)) = None
           \<or> (\<exists>fu. find (\<lambda>u. toLowerCase (u_email u) = toLowerCase email)
                  (loadUsersFromStorage t0 (storage s)) = Some fu \<and> u_password fu \<noteq> Some password)"
  shows "fst (login t0 email password s) = False
         \<and> allUsers (snd (login t0 email password s)) = allUsers s
         \<and> user (snd (login t0 email password s)) = user s
         \<and> storage (snd (login t0 email password s)) = storage s"
  using assms by (auto simp: login_def Let_def)

theorem failed_login_changes_nothing_witness:
  "fst (login 0 ''nobody@company.com'' ''admin123'' (mountedAuth 0)) = False
   \<and> allUsers (snd (login 0 ''nobody@company.com'' ''admin123'' (mountedAuth 0))) = initialUsers 0
   \<and> user (snd (login 0 ''nobody@company.com'' ''admin123'' (mountedAuth 0))) = None
   \<and> storage (snd (login 0 ''nobody@company.com'' ''admin123'' (mountedAuth 0))) = emptyStorage
   \<and> fst (login 0 ''admin@company.com'' ''Admin123'' (mountedAuth 0)) = False
   \<and> user (snd (login 0 ''admin@company.com'' ''Admin123'' (mountedAuth 0))) = None
   \<and> storage (snd (login 0 ''admin@company.com'' ''Admin123'' (mountedAuth 0))) = emptyStorage"
proof -
  have h1: "find (\<lambda>u. toLowerCase (u_email u) = toLowerCase ''nobody@company.com'')
             (loadUsersFromStorage 0 (storage (mountedAuth 0))) = None"
    by (simp add: load_mounted initialUsers_def toLowerCase_def toLowerChar_def)
  have h2a: "find (\<lambda>u. toLowerCase (u_email u) = toLowerCase ''admin@company.com'')
             (loadUsersFromStorage 0 (storage (mountedAuth 0))) = Some (hd (initialUsers 0))"
    by (simp add: load_mounted initialUsers_def lower_admin)
  have h2b: "u_password (hd (initialUsers 0)) \<noteq> Some ''Admin123''"
    by (simp add: initialUsers_def)
  from h2a h2b
  have h2: "\<exists>fu. find (\<lambda>u. toLowerCase (u_email u) = toLowerCase ''admin@company.com'')
             (loadUsersFromStorage 0 (storage (mountedAuth 0))) = Some fu
        \<and> u_password fu \<noteq> Some ''Admin123''"
    by (intro exI conjI)
  note f1 = failed_login_changes_nothing [OF disjI1 [OF h1], of "''admin123''", unfolded mounted_fields]
  note f2 = failed_login_changes_nothing [OF disjI2 [OF h2], unfolded mounted_fields]
  show ?thesis
    by (intro conjI conjunct1 [OF f1] conjunct1 [OF conjunct2 [OF f1]]
        conjunct1 [OF conjunct2 [OF conjunct2 [OF f1]]]
        conjunct2 [OF conjunct2 [OF conjunct2 [OF f1]]]
        conjunct1 [OF f2] conjunct1 [OF conjunct2 [OF conjunct2 [OF f2]]]
        conjunct2 [OF conjunct2 [OF conjunct2 [OF f2]]])
qed

section \<open>Storage: failed reads of the users\<close>

theorem failed_read_keeps_snapshot_counterexample:
  "systemUsers (storage ((mountedAuth 0)\<lparr>allUsers := initialUsers 0 @ [bob],
        storage := emptyStorage\<lparr>systemUsers := Corrupt\<rparr>\<rparr>)) = Corrupt
   \<and> allUsers (refreshUserData 0 ((mountedAuth 0)\<lparr>allUsers := initialUsers 0 @ [bob],
        storage := emptyStorage\<lparr>systemUsers := Corrupt\<rparr>\<rparr>))
     \<noteq> allUsers ((mountedAuth 0)\<lparr>allUsers := initialUsers 0 @ [bob],
        storage := emptyStorage\<lparr>systemUsers := Corrupt\<rparr>\<rparr>)"
  by (simp add: refreshUserData_def loadUsersFromStorage_def initialUsers_def emptyStorage_def)

text \<open>
  Claim C8, amended. When the users key is missing or its payload cannot be parsed,
  \<open>loadUsersFromStorage\<close> returns normally, and what it returns is the built-in initial
  user list; \<open>refreshUserData\<close> replaces the user list in memory by that list.
\<close>

theorem failed_read_falls_back_to_initial_users:
  assumes "systemUsers (storage s) = Missing \<or> systemUsers (storage s) = Corrupt"
  shows "loadUsersFromStorage t0 (storage s) = initialUsers t0
         \<and> allUsers (refreshUserData t0 s) = initialUsers t0"
  using assms by (auto simp: loadUsersFromStorage_def refreshUserData_def)

theorem failed_read_falls_back_to_initial_users_witness:
  "allUsers (refreshUserData 0 ((mountedAuth 0)\<lparr>allUsers := initialUsers 0 @ [bob],
        storage := emptyStorage\<lparr>systemUsers := Corrupt\<rparr>\<rparr>)) = initialUsers 0"
proof -
  have h: "systemUsers (storage ((mountedAuth 0)\<lparr>allUsers := initialUsers 0 @ [bob],
        storage := emptyStorage\<lparr>systemUsers := Corrupt\<rparr>\<rparr>)) = Missing
     \<or> systemUsers (storage ((mountedAuth 0)\<lparr>allUsers := initialUsers 0 @ [bob],
        storage := emptyStorage\<lparr>systemUsers := Corrupt\<rparr>\<rparr>)) = Corrupt"
    by simp
  from failed_read_falls_back_to_initial_users [OF h] show ?thesis by simp
qed


section \<open>Responses: at most one per question and user\<close>

lemma find_None_filter: "(find P xs = None) = (filter P xs = [])"
  by (induction xs) auto

text \<open>
  Claim C3. When the session user has exactly one response to a question in the response
  list, answering that question again leaves the whole state as it is: the number of
  responses of that user to that question stays 1, and the response (with its
  \<open>selectedAnswer\<close> and \<open>isCorrect\<close>) is the one that was there.
\<close>

theorem second_answer_is_noop:
  assumes session: "user (up_auth s) = Some usr"
    and answered: "length (responsesFor messageId (u_id usr) (responses s)) = 1"
  shows "handleMCQAnswer now messageId selectedOption mcqData s = s
         \<and> length (responsesFor messageId (u_id usr)
              (responses (handleMCQAnswer now messageId selectedOption mcqData s))) = 1
         \<and> responsesFor messageId (u_id usr)
              (responses (handleMCQAnswer now messageId selectedOption mcqData s))
            = responsesFor messageId (u_id usr) (responses s)"
proof -
  have "filter (\<lambda>r. r_messageId r = messageId \<and> r_userId r = u_id usr) (responses s) \<noteq> []"
    using answered by (auto simp: responsesFor_def)
  then have "find (\<lambda>r. r_messageId r = messageId \<and> r_userId r = u_id usr) (responses s) \<noteq> None"
    using find_None_filter [of "\<lambda>r. r_messageId r = messageId \<and> r_userId r = u_id usr" "responses s"]
    by blast
  then have "handleMCQAnswer now messageId selectedOption mcqData s = s"
    using session by (simp add: handleMCQAnswer_def Let_def)
  then show ?thesis using answered by simp
qed

lemma handleMCQAnswer_onePerPair:
  "onePerPair (responses s) \<Longrightarrow>
   onePerPair (responses (handleMCQAnswer now messageId selectedOption mcqData s))"
  by (auto simp: handleMCQAnswer_def Let_def onePerPair_def find_None_iff image_iff
      split: option.splits)

lemma first_answer: "handleMCQAnswer 5 ''m1'' ''Rome'' capitalQuestion bobPortal =
   bobPortal\<lparr>responses := [\<lparr>r_id = ''5'', r_messageId = ''m1'', r_userId = u_id bob,
       r_userName = ''Bob'', r_userEmail = ''bob@company.com'', r_groupId = ''g1'',
       r_selectedAnswer = ''Rome'', r_timestamp = 5, r_isCorrect = False\<rparr>],
     up_auth := (up_auth bobPortal)\<lparr>storage := emptyStorage\<lparr>systemMCQResponses := Stored
       [\<lparr>r_id = ''5'', r_messageId = ''m1'', r_userId = u_id bob,
       r_userName = ''Bob'', r_userEmail = ''bob@company.com'', r_groupId = ''g1'',
       r_selectedAnswer = ''Rome'', r_timestamp = 5, r_isCorrect = False\<rparr>]\<rparr>\<rparr>\<rparr>"
  by (simp add: handleMCQAnswer_def bobPortal_def Let_def bob_def capitalQuestion_def orElse_def
      saveResponsesToStorage_def setItem_systemMCQResponses_def emptyStorage_def toString.simps)

theorem second_answer_is_noop_witness:
  "map r_selectedAnswer (responsesFor ''m1'' (u_id bob) (responses
      (handleMCQAnswer 6 ''m1'' ''Paris'' capitalQuestion
         (handleMCQAnswer 5 ''m1'' ''Rome'' capitalQuestion bobPortal)))) = [''Rome'']
   \<and> map r_isCorrect (responsesFor ''m1'' (u_id bob) (responses
      (handleMCQAnswer 6 ''m1'' ''Paris'' capitalQuestion
         (handleMCQAnswer 5 ''m1'' ''Rome'' capitalQuestion bobPortal)))) = [False]"
proof -
  let ?s1 = "handleMCQAnswer 5 ''m1'' ''Rome'' capitalQuestion bobPortal"
  have h1: "user (up_auth ?s1) = Some (bob\<lparr>u_password := None\<rparr>)"
    by (simp add: first_answer) (simp add: bobPortal_def)
  have h2: "length (responsesFor ''m1'' (u_id (bob\<lparr>u_password := None\<rparr>)) (responses ?s1)) = 1"
    by (simp add: first_answer responsesFor_def)
  from second_answer_is_noop [OF h1 h2, of 6 "''Paris''" capitalQuestion]
  show ?thesis by (simp add: first_answer responsesFor_def)
qed



section \<open>Deleting a user\<close>

text \<open>
  Claim C7. A confirmed \<open>handleDeleteUser\<close> removes the id from the member list of every
  group and removes the users with that id, in one step; when the id is the id of the
  session user, the session in memory is cleared and the persisted session is removed,
  and otherwise session and storage stay as they are.
\<close>

theorem delete_user_cascades:
  "map g_members (groups (handleDeleteUser True userId s))
     = map (\<lambda>g. filter (\<lambda>m. m \<noteq> userId) (g_members g)) (groups s)
   \<and> list_all (\<lambda>g. userId \<notin> set (g_members g)) (groups (handleDeleteUser True userId s))
   \<and> allUsers (auth (handleDeleteUser True userId s))
     = filter (\<lambda>u. u_id u \<noteq> userId) (allUsers (auth s))
   \<and> (map_option u_id (user (auth s)) = Some userId \<longrightarrow>
        user (auth (handleDeleteUser True userId s)) = None
        \<and> currentUser (storage (auth (handleDeleteUser True userId s))) = Missing)
   \<and> (map_option u_id (user (auth s)) \<noteq> Some userId \<longrightarrow>
        user (auth (handleDeleteUser True userId s)) = user (auth s)
        \<and> storage (auth (handleDeleteUser True userId s)) = storage (auth s))"
  by (auto simp: handleDeleteUser_def deleteUser_def Let_def setAllUsers_def logout_def
      removeItem_currentUser_def list_all_iff o_def)


theorem delete_user_cascades_witness:
  "map g_members (groups (handleDeleteUser True ''1''
      ((adminPortal 0)\<lparr>groups :=
         [\<lparr>g_id = ''g1'', g_name = ''A'', g_description = [], g_members = [''1'', ''2''],
           g_createdBy = ''1''\<rparr>,
          \<lparr>g_id = ''g2'', g_name = ''B'', g_description = [], g_members = [''3'', ''1''],
           g_createdBy = ''1''\<rparr>]\<rparr>))) = [[''2''], [''3'']]
   \<and> user (auth (handleDeleteUser True ''1''
      ((adminPortal 0)\<lparr>groups :=
         [\<lparr>g_id = ''g1'', g_name = ''A'', g_description = [], g_members = [''1'', ''2''],
           g_createdBy = ''1''\<rparr>,
          \<lparr>g_id = ''g2'', g_name = ''B'', g_description = [], g_members = [''3'', ''1''],
           g_createdBy = ''1''\<rparr>]\<rparr>))) = None"
proof -
  have h: "map_option u_id (user (auth ((adminPortal 0)\<lparr>groups :=
         [\<lparr>g_id = ''g1'', g_name = ''A'', g_description = [], g_members = [''1'', ''2''],
           g_createdBy = ''1''\<rparr>,
          \<lparr>g_id = ''g2'', g_name = ''B'', g_description = [], g_members = [''3'', ''1''],
           g_createdBy = ''1''\<rparr>]\<rparr>))) = Some ''1''"
    by (simp add: adminPortal_def initialUsers_def)
  from delete_user_cascades [of "''1''" "(adminPortal 0)\<lparr>groups :=
         [\<lparr>g_id = ''g1'', g_name = ''A'', g_description = [], g_members = [''1'', ''2''],
           g_createdBy = ''1''\<rparr>,
          \<lparr>g_id = ''g2'', g_name = ''B'', g_description = [], g_members = [''3'', ''1''],
           g_createdBy = ''1''\<rparr>]\<rparr>"] h
  show ?thesis by simp
qed


section \<open>Creating a user twice\<close>

lemma handleCreateUser_dup:
  "getUserByEmail (f_email d) (auth s) \<noteq> None \<or> getUserByEmployeeId (f_employeeId d) (auth s) \<noteq> None
   \<Longrightarrow> handleCreateUser now pw d s
       = (Some ''User with this email or employee ID already exists!'', s)"
  unfolding handleCreateUser_def Let_def
  by (cases "getUserByEmail (f_email d) (auth s)") simp_all

lemma handleCreateUser_fst_None:
  "fst (handleCreateUser now pw d s) = None \<Longrightarrow>
   getUserByEmail (f_email d) (auth s) = None \<and> getUserByEmployeeId (f_employeeId d) (auth s) = None"
  unfolding handleCreateUser_def Let_def
  by (cases "getUserByEmail (f_email d) (auth s)";
      cases "getUserByEmployeeId (f_employeeId d) (auth s)") simp_all

lemma not_sameIdentity:
  assumes "getUserByEmail e a = None" "getUserByEmployeeId i a = None"
    and "u_email nu = e" "u_employeeId nu = i"
  shows "\<not> list_ex (sameIdentity nu) (allUsers a)"
  using assms
  by (auto simp: getUserByEmail_def getUserByEmployeeId_def find_None_iff list_ex_iff
      sameIdentity_def)

lemma handleCreateUser_new:
  assumes "getUserByEmail (f_email d) (auth s) = None"
    and "getUserByEmployeeId (f_employeeId d) (auth s) = None"
  shows "handleCreateUser now pw d s =
      (None, s\<lparr>auth := (auth s)\<lparr>allUsers := allUsers (auth s) @ [formUser now pw d s]\<rparr>,
        generatedPasswords := [\<lparr>gp_userId = toString now, gp_userName = f_name d,
                      gp_email = f_email d, gp_password = pw\<rparr>]\<rparr>)"
proof -
  have "\<not> list_ex (sameIdentity (formUser now pw d s\<lparr>u_createdAt := None\<rparr>)) (allUsers (auth s))"
    by (rule not_sameIdentity [OF assms]) (simp_all add: formUser_def)
  then show ?thesis
    using assms
    by (simp add: handleCreateUser_def Let_def setAllUsers_def addUser_def formUser_def)
qed


lemma find_snoc_hit: "P x \<Longrightarrow> find P (xs @ [x]) \<noteq> None"
  by (induction xs) simp_all

text \<open>
  Claim C6. Let two drafts have the same e-mail address up to case or the same employee
  id. When creating the first succeeds (no alert), the store is the old one with the
  first draft's user appended, and creating the second then alerts ``User with this
  email or employee ID already exists!'' and leaves the whole state, the user store
  included, as it was.
\<close>

theorem second_create_is_duplicate:
  assumes collide: "toLowerCase (f_email d2) = toLowerCase (f_email d1)
                    \<or> f_employeeId d2 = f_employeeId d1"
    and first: "fst (handleCreateUser now1 pw1 d1 s) = None"
  shows "allUsers (auth (snd (handleCreateUser now1 pw1 d1 s)))
           = allUsers (auth s) @ [formUser now1 pw1 d1 s]
         \<and> handleCreateUser now2 pw2 d2 (snd (handleCreateUser now1 pw1 d1 s))
           = (Some ''User with this email or employee ID already exists!'',
              snd (handleCreateUser now1 pw1 d1 s))"
proof -
  let ?s1 = "snd (handleCreateUser now1 pw1 d1 s)"
  let ?nu = "formUser now1 pw1 d1 s"
  note none = handleCreateUser_fst_None [OF first]
  have users1: "allUsers (auth ?s1) = allUsers (auth s) @ [?nu]"
    by (simp add: handleCreateUser_new [OF conjunct1 [OF none] conjunct2 [OF none]])
  have mail: "u_email ?nu = f_email d1" and emp: "u_employeeId ?nu = f_employeeId d1"
    by (simp_all add: formUser_def)
  from collide have "getUserByEmail (f_email d2) (auth ?s1) \<noteq> None
        \<or> getUserByEmployeeId (f_employeeId d2) (auth ?s1) \<noteq> None"
  proof
    assume "toLowerCase (f_email d2) = toLowerCase (f_email d1)"
    then have "toLowerCase (u_email ?nu) = toLowerCase (f_email d2)" by (simp add: mail)
    then have "getUserByEmail (f_email d2) (auth ?s1) \<noteq> None"
      unfolding getUserByEmail_def users1 by (rule find_snoc_hit)
    then show ?thesis ..
  next
    assume "f_employeeId d2 = f_employeeId d1"
    then have "u_employeeId ?nu = f_employeeId d2" by (simp add: emp)
    then have "getUserByEmployeeId (f_employeeId d2) (auth ?s1) \<noteq> None"
      unfolding getUserByEmployeeId_def users1 by (rule find_snoc_hit)
    then show ?thesis ..
  qed
  then have "handleCreateUser now2 pw2 d2 ?s1
           = (Some ''User with this email or employee ID already exists!'', ?s1)"
    by (rule handleCreateUser_dup)
  with users1 show ?thesis by (rule conjI)
qed


lemma adminPortal_users: "allUsers (auth (adminPortal t0)) = initialUsers t0"
  by (simp add: adminPortal_def mountedAuth_def loadUsersFromStorage_def emptyStorage_def)

theorem second_create_is_duplicate_witness:
  "map u_email (allUsers (auth (snd (handleCreateUser 1700000000000 ''HappyTiger123'' bobForm (adminPortal 0)))))
     = [''admin@company.com'', ''bob@company.com'']
   \<and> fst (handleCreateUser 1700000000500 ''CoolWolf456''
          (bobForm\<lparr>f_email := ''Bob@Company.com'', f_employeeId := ''EMP002''\<rparr>)
          (snd (handleCreateUser 1700000000000 ''HappyTiger123'' bobForm (adminPortal 0))))
     = Some ''User with this email or employee ID already exists!''"
proof -
  have h1: "toLowerCase (f_email (bobForm\<lparr>f_email := ''Bob@Company.com'', f_employeeId := ''EMP002''\<rparr>))
        = toLowerCase (f_email bobForm)
      \<or> f_employeeId (bobForm\<lparr>f_email := ''Bob@Company.com'', f_employeeId := ''EMP002''\<rparr>)
        = f_employeeId bobForm"
    by (simp add: bobForm_def toLowerCase_def toLowerChar_def)
  have g1: "getUserByEmail (f_email bobForm) (auth (adminPortal 0)) = None"
    by (simp add: getUserByEmail_def adminPortal_users initialUsers_def bobForm_def
        toLowerCase_def toLowerChar_def)
  have g2: "getUserByEmployeeId (f_employeeId bobForm) (auth (adminPortal 0)) = None"
    by (simp add: getUserByEmployeeId_def adminPortal_users initialUsers_def bobForm_def)
  have h2: "fst (handleCreateUser 1700000000000 ''HappyTiger123'' bobForm (adminPortal 0)) = None"
    by (simp add: handleCreateUser_new [OF g1 g2])
  have us: "map u_email (allUsers (auth (adminPortal 0))) = [''admin@company.com'']"
    by (simp add: adminPortal_users initialUsers_def)
  have nu: "u_email (formUser 1700000000000 ''HappyTiger123'' bobForm (adminPortal 0))
        = ''bob@company.com''"
    by (simp add: formUser_def bobForm_def)
  from second_create_is_duplicate [OF h1 h2, of 1700000000500 "''CoolWolf456''"]
  show ?thesis by (simp add: us nu)
qed



section \<open>Secure passwords\<close>

lemma randomIndex_less:
  assumes "0 \<le> r" "r < 1" "0 < n"
  shows "randomIndex r n < n"
proof -
  have "r * real n < real n" using assms by simp
  then have "\<lfloor>r * real n\<rfloor> < int n" by (simp add: floor_less_iff)
  then show ?thesis using assms(3) unfolding randomIndex_def by linarith
qed

lemma charAt_pick:
  assumes "0 \<le> r" "r < 1" "s \<noteq> []"
  shows "\<exists>c \<in> set s. charAt s (randomIndex r (length s)) = [c]"
proof -
  have "randomIndex r (length s) < length s"
    using assms by (intro randomIndex_less) simp_all
  then show ?thesis by (auto simp: charAt_def)
qed

lemma fillRest_shape:
  assumes range: "\<forall>k. 0 \<le> rnd k \<and> rnd k < 1"
  shows "i \<le> len \<Longrightarrow> \<exists>q. fillRest rnd len i p = p @ q \<and> length q = len - i"
proof (induction "len - i" arbitrary: i p)
  case 0
  then have "\<not> i < len" by simp
  then show ?case by (simp add: fillRest.simps)
next
  case (Suc d)
  then have lt: "i < len" by simp
  have ne: "allChars \<noteq> []" by (simp add: allChars_def lowercase_def)
  from range have "0 \<le> rnd i" "rnd i < 1" by simp_all
  from charAt_pick [OF this ne] obtain c where
    c: "charAt allChars (randomIndex (rnd i) (length allChars)) = [c]" by blast
  have "d = len - (i + 1)" "i + 1 \<le> len" using Suc.hyps(2) lt by simp_all
  from Suc.hyps(1) [OF this] obtain q where
    q: "fillRest rnd len (i + 1) (p @ [c]) = (p @ [c]) @ q" "length q = len - (i + 1)"
    by blast
  have "fillRest rnd len i p = fillRest rnd len (i + 1) (p @ [c])"
    using lt c by (subst fillRest.simps) simp
  then have "fillRest rnd len i p = p @ (c # q)" using q(1) by simp
  moreover have "length (c # q) = len - i" using q(2) lt by simp
  ultimately show ?case by blast
qed

text \<open>
  Claim C9. Whatever values in the interval from 0 (included) to 1 (excluded) the calls
  of \<open>Math.random()\<close> return, and whatever rearrangement of the characters the final
  random sort makes, \<open>generateSecurePassword(12)\<close> has length 12 and contains a lowercase
  letter, an uppercase letter, a digit and a symbol.
\<close>

theorem secure_password_classes:
  assumes range: "\<forall>k. 0 \<le> rnd k \<and> rnd k < 1"
    and perm: "\<forall>xs. mset (sortRandomly xs) = mset xs"
  shows "length (generateSecurePassword sortRandomly rnd 12) = 12
         \<and> hasCharFrom lowercase (generateSecurePassword sortRandomly rnd 12)
         \<and> hasCharFrom uppercase (generateSecurePassword sortRandomly rnd 12)
         \<and> hasCharFrom numbers (generateSecurePassword sortRandomly rnd 12)
         \<and> hasCharFrom symbols (generateSecurePassword sortRandomly rnd 12)"
proof -
  have r: "0 \<le> rnd k" "rnd k < 1" for k using range by simp_all
  obtain a where a: "a \<in> set lowercase"
      "charAt lowercase (randomIndex (rnd 0) (length lowercase)) = [a]"
    using charAt_pick [OF r, of lowercase 0] by (auto simp: lowercase_def)
  obtain b where b: "b \<in> set uppercase"
      "charAt uppercase (randomIndex (rnd 1) (length uppercase)) = [b]"
    using charAt_pick [OF r, of uppercase 1] by (auto simp: uppercase_def)
  obtain c where c: "c \<in> set numbers"
      "charAt numbers (randomIndex (rnd 2) (length numbers)) = [c]"
    using charAt_pick [OF r, of numbers 2] by (auto simp: numbers_def)
  obtain d where d: "d \<in> set symbols"
      "charAt symbols (randomIndex (rnd 3) (length symbols)) = [d]"
    using charAt_pick [OF r, of symbols 3] by (auto simp: symbols_def)
  obtain q where q: "fillRest rnd 12 4 [a, b, c, d] = [a, b, c, d] @ q" "length q = 12 - 4"
    using fillRest_shape [OF range, of 4 12 "[a, b, c, d]"] by auto
  let ?p = "[a, b, c, d] @ q"
  have gen: "generateSecurePassword sortRandomly rnd 12 = sortRandomly ?p"
    using a(2) b(2) c(2) d(2) q(1) by (simp add: generateSecurePassword_def Let_def)
  have m: "mset (sortRandomly ?p) = mset ?p" using perm by blast
  have len: "length (sortRandomly ?p) = 12"
    using mset_eq_length [OF m] q(2) by simp
  have st: "set (sortRandomly ?p) = set ?p" using mset_eq_setD [OF m] .
  have "a \<in> set (sortRandomly ?p)" "b \<in> set (sortRandomly ?p)"
       "c \<in> set (sortRandomly ?p)" "d \<in> set (sortRandomly ?p)"
    unfolding st by simp_all
  then show ?thesis
    using a(1) b(1) c(1) d(1) len unfolding gen hasCharFrom_def list_ex_iff by blast
qed

theorem secure_password_classes_witness:
  "length (generateSecurePassword rev (\<lambda>k. 1/2) 12) = 12
   \<and> hasCharFrom lowercase (generateSecurePassword rev (\<lambda>k. 1/2) 12)
   \<and> hasCharFrom uppercase (generateSecurePassword rev (\<lambda>k. 1/2) 12)
   \<and> hasCharFrom numbers (generateSecurePassword rev (\<lambda>k. 1/2) 12)
   \<and> hasCharFrom symbols (generateSecurePassword rev (\<lambda>k. 1/2) 12)"
proof -
  have h1: "\<forall>k::nat. 0 \<le> (\<lambda>k. 1/2::real) k \<and> (\<lambda>k. 1/2::real) k < 1" by simp
  have h2: "\<forall>xs::string. mset (rev xs) = mset xs" by simp
  from secure_password_classes [OF h1 h2] show ?thesis .
qed


section \<open>Uniqueness of the user identity\<close>

lemma uniqueIdentity_initial: "uniqueIdentity (initialUsers t0)"
  by (simp add: uniqueIdentity_def initialUsers_def)

lemma uniqueIdentity_snoc:
  assumes "uniqueIdentity us" "\<not> list_ex (sameIdentity nu) us"
  shows "uniqueIdentity (us @ [nu\<lparr>u_createdAt := t\<rparr>])"
  using assms by (auto simp: uniqueIdentity_def list_ex_iff sameIdentity_def)

lemma uniqueIdentity_addUser:
  "uniqueIdentity us \<Longrightarrow> uniqueIdentity (addUser now newUser us)"
  by (simp add: addUser_def Let_def uniqueIdentity_snoc)

lemma uniqueIdentity_addUsers:
  assumes "uniqueIdentity us" "uniqueIdentity newUsers"
  shows "uniqueIdentity (addUsers now newUsers us)"
proof -
  let ?valid = "filter (\<lambda>newUser. \<not> list_ex (sameIdentity newUser) us) newUsers"
  let ?stamped = "map (\<lambda>u. u\<lparr>u_createdAt := Some now\<rparr>) ?valid"
  have mail: "map (\<lambda>u. toLowerCase (u_email u)) ?stamped = map (\<lambda>u. toLowerCase (u_email u)) ?valid"
    and emp: "map u_employeeId ?stamped = map u_employeeId ?valid"
    by (simp_all add: o_def)
  have d1: "distinct (map (\<lambda>u. toLowerCase (u_email u)) ?valid)"
    and d2: "distinct (map u_employeeId ?valid)"
    using assms(2) by (simp_all add: uniqueIdentity_def distinct_map_filter)
  have apart: "toLowerCase (u_email u) \<noteq> toLowerCase (u_email n) \<and> u_employeeId u \<noteq> u_employeeId n"
    if "u \<in> set us" "n \<in> set ?valid" for u n
    using that by (auto simp: list_ex_iff sameIdentity_def)
  have "distinct (map (\<lambda>u. toLowerCase (u_email u)) (us @ ?stamped))"
    unfolding map_append mail using assms(1) d1 apart
    by (auto simp: uniqueIdentity_def)
  moreover have "distinct (map u_employeeId (us @ ?stamped))"
    unfolding map_append emp using assms(1) d2 apart
    by (auto simp: uniqueIdentity_def)
  ultimately show ?thesis by (simp add: addUsers_def Let_def uniqueIdentity_def)
qed

lemma uniqueIdentity_updateUser:
  assumes "uniqueIdentity us" "p_email updates = None" "p_employeeId updates = None"
  shows "uniqueIdentity (updateUser userId updates us)"
proof -
  have "map (\<lambda>u. toLowerCase (u_email u)) (updateUser userId updates us)
          = map (\<lambda>u. toLowerCase (u_email u)) us"
    using assms(2) by (simp add: updateUser_def spread_def orElse_def o_def)
  moreover have "map u_employeeId (updateUser userId updates us) = map u_employeeId us"
    using assms(3) by (simp add: updateUser_def spread_def orElse_def o_def)
  ultimately show ?thesis using assms(1) by (simp add: uniqueIdentity_def)
qed

theorem identity_unique_counterexample:
  "reachableUsers 0 (updateUser ''1700000000000'' (noUpdates\<lparr>p_email := Some ''Admin@Company.com''\<rparr>)
      (addUser 5 bob (initialUsers 0)))
   \<and> \<not> uniqueIdentity (updateUser ''1700000000000'' (noUpdates\<lparr>p_email := Some ''Admin@Company.com''\<rparr>)
      (addUser 5 bob (initialUsers 0)))"
proof
  show "reachableUsers 0 (updateUser ''1700000000000'' (noUpdates\<lparr>p_email := Some ''Admin@Company.com''\<rparr>)
      (addUser 5 bob (initialUsers 0)))"
    by (intro reachableUsers.intros)
  show "\<not> uniqueIdentity (updateUser ''1700000000000'' (noUpdates\<lparr>p_email := Some ''Admin@Company.com''\<rparr>)
      (addUser 5 bob (initialUsers 0)))"
    by (simp add: uniqueIdentity_def updateUser_def addUser_def Let_def initialUsers_def bob_def
        sameIdentity_def spread_def orElse_def noUpdates_def toLowerCase_def toLowerChar_def)
qed

text \<open>
  Claim C1, amended. In every user list reached from the initial users through
  \<open>addUser\<close>, through \<open>addUsers\<close> with a batch that is free of collisions among its own
  users, and through \<open>updateUser\<close> with updates that carry neither an \<open>email\<close> nor an
  \<open>employeeId\<close> key, no two users share an e-mail address up to case or an employee id.
\<close>

theorem identity_unique_when_keys_kept:
  "reachableUsersKeyed t0 us \<Longrightarrow> uniqueIdentity us"
proof (induction rule: reachableUsersKeyed.induct)
  case seedK
  show ?case by (rule uniqueIdentity_initial)
next
  case (byAddUserK us now newUser)
  then show ?case by (simp add: uniqueIdentity_addUser)
next
  case (byAddUsersK us newUsers now)
  then show ?case by (simp add: uniqueIdentity_addUsers)
next
  case (byUpdateUserK us updates userId)
  then show ?case by (simp add: uniqueIdentity_updateUser)
qed

theorem identity_unique_when_keys_kept_witness:
  "reachableUsersKeyed 0 (updateUser ''1700000000000'' (noUpdates\<lparr>p_groups := Some [''g1'']\<rparr>)
      (addUser 5 bob (initialUsers 0)))
   \<and> uniqueIdentity (updateUser ''1700000000000'' (noUpdates\<lparr>p_groups := Some [''g1'']\<rparr>)
      (addUser 5 bob (initialUsers 0)))"
proof -
  have h: "reachableUsersKeyed 0 (updateUser ''1700000000000'' (noUpdates\<lparr>p_groups := Some [''g1'']\<rparr>)
      (addUser 5 bob (initialUsers 0)))"
    by (intro reachableUsersKeyed.intros) (simp_all add: noUpdates_def)
  from identity_unique_when_keys_kept [OF h] h show ?thesis by simp
qed


section \<open>Bulk upload of a batch that collides with itself\<close>

lemma validateUserData_rowIndex: "validateUserData a userData i = validateUserData a userData j"
  by (simp add: validateUserData_def)

lemma validate_bobRow: "validateUserData (auth (adminPortal 0)) bobRow i = Inr []"
proof -
  have "validateUserData (auth (adminPortal 0)) bobRow 2 = Inr []" by code_simp
  then show ?thesis using validateUserData_rowIndex [of _ _ i 2] by simp
qed

lemma validate_robRow: "validateUserData (auth (adminPortal 0)) robRow i = Inr []"
proof -
  have "validateUserData (auth (adminPortal 0)) robRow 3 = Inr []" by code_simp
  then show ?thesis using validateUserData_rowIndex [of _ _ i 3] by simp
qed

lemma row_ids:
  "toString 1700000000000 = ''1700000000000''"
  "toString 1700000000100 = ''1700000000100''"
  "toString 0 = ''0''"
  "toString (Suc 0) = ''1''"
  by (simp_all add: toString.simps)

lemma row_texts:
  "toLowerCase (cellText (row_Email bobRow)) = ''bob@company.com''"
  "toLowerCase (cellText (row_Email robRow)) = ''bob@company.com''"
  "cellText (row_EmployeeID bobRow) = ''EMP001''"
  "cellText (row_EmployeeID robRow) = ''EMP002''"
  by (simp_all add: bobRow_def robRow_def cellText_def trim_def isSpace_def toLowerCase_def
      toLowerChar_def)

lemma rows_processed:
  "case processRows (auth (adminPortal 0)) (\<lambda>i. 1700000000000 + 100 * i)
       (\<lambda>i. ''HappyTiger123'') 0 [bobRow, robRow]
       \<lparr>res_success = [], res_errors = [], res_passwords = []\<rparr> of
     Inl e \<Rightarrow> False
   | Inr r \<Rightarrow>
       map u_id (res_success r) = [''1700000000000_0'', ''1700000000100_1'']
     \<and> map u_email (res_success r) = [''bob@company.com'', ''bob@company.com'']
     \<and> map u_employeeId (res_success r) = [''EMP001'', ''EMP002'']
     \<and> res_errors r = [] \<and> length (res_passwords r) = 2"
  by (simp add: validate_bobRow validate_robRow row_ids row_texts Let_def)


text \<open>
  Claim C2, at a batch of two rows whose e-mail addresses agree up to case, uploaded
  over the initial users: both rows pass \<open>validateUserData\<close>, whose lookup sees the
  users of the store only, and \<open>addUsers\<close> filters each draft against the store only.
  The report lists two created users and no error, and the store ends with two users
  that share an e-mail address; the claim asks for one created user and one skipped row.
\<close>

theorem bulk_upload_keeps_batch_duplicates:
  "map u_email (allUsers (auth (processBulkUpload (\<lambda>i. 1700000000000 + 100 * i)
       (\<lambda>i. ''HappyTiger123'') 1700000000300 [bobRow, robRow] (adminPortal 0))))
     = [''admin@company.com'', ''bob@company.com'', ''bob@company.com'']
   \<and> map_option (\<lambda>r. map u_id (res_success r))
        (uploadResult (processBulkUpload (\<lambda>i. 1700000000000 + 100 * i)
       (\<lambda>i. ''HappyTiger123'') 1700000000300 [bobRow, robRow] (adminPortal 0)))
     = Some [''1700000000000_0'', ''1700000000100_1'']
   \<and> map_option res_errors
        (uploadResult (processBulkUpload (\<lambda>i. 1700000000000 + 100 * i)
       (\<lambda>i. ''HappyTiger123'') 1700000000300 [bobRow, robRow] (adminPortal 0)))
     = Some []
   \<and> \<not> uniqueIdentity (allUsers (auth (processBulkUpload (\<lambda>i. 1700000000000 + 100 * i)
       (\<lambda>i. ''HappyTiger123'') 1700000000300 [bobRow, robRow] (adminPortal 0))))"
proof -
  let ?s = "processBulkUpload (\<lambda>i. 1700000000000 + 100 * i)
       (\<lambda>i. ''HappyTiger123'') 1700000000300 [bobRow, robRow] (adminPortal 0)"
  obtain r where
    r: "processRows (auth (adminPortal 0)) (\<lambda>i. 1700000000000 + 100 * i)
       (\<lambda>i. ''HappyTiger123'') 0 [bobRow, robRow]
       \<lparr>res_success = [], res_errors = [], res_passwords = []\<rparr> = Inr r"
    using rows_processed
    by (cases "processRows (auth (adminPortal 0)) (\<lambda>i. 1700000000000 + 100 * i)
       (\<lambda>i. ''HappyTiger123'') 0 [bobRow, robRow]
       \<lparr>res_success = [], res_errors = [], res_passwords = []\<rparr>") simp_all
  have ids: "map u_id (res_success r) = [''1700000000000_0'', ''1700000000100_1'']"
    and mails: "map u_email (res_success r) = [''bob@company.com'', ''bob@company.com'']"
    and emps: "map u_employeeId (res_success r) = [''EMP001'', ''EMP002'']"
    and errs: "res_errors r = []" and pws: "length (res_passwords r) = 2"
    using rows_processed unfolding r by simp_all
  obtain u1 u2 where us0: "res_success r = [u1, u2]"
  proof (cases "res_success r")
    case Nil
    with mails show ?thesis by simp
  next
    case (Cons x xs)
    with mails obtain y where "xs = [y]" by (cases xs) auto
    with Cons that show ?thesis by simp
  qed
  have us: "res_success r = [u1, u2]" "u_email u1 = ''bob@company.com''"
      "u_email u2 = ''bob@company.com''" "u_employeeId u1 = ''EMP001''"
      "u_employeeId u2 = ''EMP002''"
    using mails emps unfolding us0 by simp_all
  have lower: "toLowerCase ''bob@company.com'' = ''bob@company.com''"
      "toLowerCase ''admin@company.com'' = ''admin@company.com''"
    by (simp_all add: toLowerCase_def toLowerChar_def)
  have added: "addUsers 1700000000300 (res_success r) (initialUsers 0)
      = initialUsers 0 @ [u1\<lparr>u_createdAt := Some 1700000000300\<rparr>,
                          u2\<lparr>u_createdAt := Some 1700000000300\<rparr>]"
    by (simp add: addUsers_def Let_def us sameIdentity_def initialUsers_def lower)
  have users: "allUsers (auth ?s) = initialUsers 0 @ [u1\<lparr>u_createdAt := Some 1700000000300\<rparr>,
                          u2\<lparr>u_createdAt := Some 1700000000300\<rparr>]"
    unfolding processBulkUpload_def r using pws
    by (simp add: setAllUsers_def adminPortal_users added)
  have report: "uploadResult ?s = Some r"
    unfolding processBulkUpload_def r using pws by simp
  have m: "map u_email (allUsers (auth ?s))
      = [''admin@company.com'', ''bob@company.com'', ''bob@company.com'']"
    by (simp add: users us initialUsers_def)
  have "\<not> distinct (map (\<lambda>u. toLowerCase (u_email u)) (allUsers (auth ?s)))"
    by (simp add: users us lower)
  then have "\<not> uniqueIdentity (allUsers (auth ?s))" by (simp add: uniqueIdentity_def)
  with m report ids errs show ?thesis by simp
qed


section \<open>Group membership on both sides\<close>

lemma membershipConsistent_iff:
  "membershipConsistent s \<longleftrightarrow>
     (\<forall>u \<in> set (allUsers (auth s)). \<forall>g \<in> set (groups s).
        (g_id g \<in> set (u_groups u)) = (u_id u \<in> set (g_members g)))"
  by (simp add: membershipConsistent_def list_all_iff)

lemma same_id_same_groups:
  assumes "membershipConsistent s"
    and "u1 \<in> set (allUsers (auth s))" "u2 \<in> set (allUsers (auth s))" "u_id u1 = u_id u2"
    and "g \<in> set (groups s)"
  shows "(g_id g \<in> set (u_groups u1)) = (g_id g \<in> set (u_groups u2))"
  using assms by (simp add: membershipConsistent_iff)

lemma find_SomeD: "find P xs = Some x \<Longrightarrow> x \<in> set xs \<and> P x"
  by (induction xs) (auto split: if_splits)

lemma find_NoneD: "find P xs = None \<Longrightarrow> x \<in> set xs \<Longrightarrow> \<not> P x"
  by (induction xs) (auto split: if_splits)

lemma spread_groups:
  "u_groups (spread u (noUpdates\<lparr>p_groups := Some gs\<rparr>)) = gs"
  "u_id (spread u (noUpdates\<lparr>p_groups := Some gs\<rparr>)) = u_id u"
  by (simp_all add: spread_def noUpdates_def orElse_def)

text \<open>A transfer principle: both sides change by the same rule.\<close>

lemma membershipConsistent_transfer:
  assumes inv: "membershipConsistent s"
    and users: "\<And>u'. u' \<in> set (allUsers (auth s')) \<Longrightarrow>
        \<exists>u \<in> set (allUsers (auth s)). u_id u' = u_id u \<and>
          (\<forall>g \<in> set (groups s).
             (g_id g \<in> set (u_groups u')) = R (g_id g \<in> set (u_groups u)) (u_id u) (g_id g))"
    and grps: "\<And>g'. g' \<in> set (groups s') \<Longrightarrow>
        \<exists>g \<in> set (groups s). g_id g' = g_id g \<and>
          (\<forall>x. (x \<in> set (g_members g')) = R (x \<in> set (g_members g)) x (g_id g))"
  shows "membershipConsistent s'"
  unfolding membershipConsistent_iff
proof (intro ballI)
  fix u' g'
  assume "u' \<in> set (allUsers (auth s'))" and "g' \<in> set (groups s')"
  from users [OF this(1)] obtain u where
    u: "u \<in> set (allUsers (auth s))" "u_id u' = u_id u"
      "\<forall>g \<in> set (groups s).
         (g_id g \<in> set (u_groups u')) = R (g_id g \<in> set (u_groups u)) (u_id u) (g_id g)"
    by blast
  from grps [OF \<open>g' \<in> set (groups s')\<close>] obtain g where
    g: "g \<in> set (groups s)" "g_id g' = g_id g"
      "\<forall>x. (x \<in> set (g_members g')) = R (x \<in> set (g_members g)) x (g_id g)"
    by blast
  have "(g_id g \<in> set (u_groups u)) = (u_id u \<in> set (g_members g))"
    using inv u(1) g(1) by (simp add: membershipConsistent_iff)
  then have "(g_id g \<in> set (u_groups u')) = (u_id u \<in> set (g_members g'))"
    using u(3) g(1) g(3) by simp
  then show "(g_id g' \<in> set (u_groups u')) = (u_id u' \<in> set (g_members g'))"
    by (simp add: u(2) g(2))
qed

subsection \<open>Adding\<close>

lemma handleAdd_groups:
  "groups (handleAddUserToGroup userId groupId s) =
     map (\<lambda>g. if g_id g = groupId \<and> userId \<notin> set (g_members g)
               then g\<lparr>g_members := g_members g @ [userId]\<rparr> else g) (groups s)"
  by (simp add: handleAddUserToGroup_def Let_def split: option.split)

lemma handleAdd_users:
  "allUsers (auth (handleAddUserToGroup userId groupId s)) =
     (case find (\<lambda>u. u_id u = userId) (allUsers (auth s)) of
        Some cu \<Rightarrow>
          if groupId \<notin> set (u_groups cu)
          then updateUser userId (noUpdates\<lparr>p_groups := Some (u_groups cu @ [groupId])\<rparr>)
                 (allUsers (auth s))
          else allUsers (auth s)
      | None \<Rightarrow> allUsers (auth s))"
  by (simp add: handleAddUserToGroup_def Let_def getAllUsers_def setAllUsers_def
      split: option.split)

lemma handleAdd_group_side:
  assumes "g' \<in> set (groups (handleAddUserToGroup userId groupId s))"
  shows "\<exists>g \<in> set (groups s). g_id g' = g_id g \<and>
           (\<forall>x. (x \<in> set (g_members g')) =
                 (x \<in> set (g_members g) \<or> (x = userId \<and> g_id g = groupId)))"
proof -
  from assms obtain g where g: "g \<in> set (groups s)"
    and g': "g' = (if g_id g = groupId \<and> userId \<notin> set (g_members g)
                    then g\<lparr>g_members := g_members g @ [userId]\<rparr> else g)"
    unfolding handleAdd_groups by auto
  have "g_id g' = g_id g" by (simp add: g')
  moreover have "\<forall>x. (x \<in> set (g_members g')) =
                 (x \<in> set (g_members g) \<or> (x = userId \<and> g_id g = groupId))"
    by (auto simp: g')
  ultimately show ?thesis using g by blast
qed

lemma handleAdd_user_side:
  assumes inv: "membershipConsistent s"
    and u': "u' \<in> set (allUsers (auth (handleAddUserToGroup userId groupId s)))"
  shows "\<exists>u \<in> set (allUsers (auth s)). u_id u' = u_id u \<and>
           (\<forall>g \<in> set (groups s). (g_id g \<in> set (u_groups u')) =
                 (g_id g \<in> set (u_groups u) \<or> (u_id u = userId \<and> g_id g = groupId)))"
proof (cases "find (\<lambda>u. u_id u = userId) (allUsers (auth s))")
  case None
  with u' have mem: "u' \<in> set (allUsers (auth s))" by (simp add: handleAdd_users)
  with None have "u_id u' \<noteq> userId" by (auto dest: find_NoneD)
  with mem show ?thesis by blast
next
  case (Some cu)
  then have cu: "cu \<in> set (allUsers (auth s))" "u_id cu = userId"
    by (auto dest: find_SomeD)
  show ?thesis
  proof (cases "groupId \<in> set (u_groups cu)")
    case True
    with Some u' have mem: "u' \<in> set (allUsers (auth s))" by (simp add: handleAdd_users)
    have "(g_id g \<in> set (u_groups u')) =
          (g_id g \<in> set (u_groups u') \<or> (u_id u' = userId \<and> g_id g = groupId))"
      if g: "g \<in> set (groups s)" for g
    proof (cases "u_id u' = userId \<and> g_id g = groupId")
      case True
      have "(g_id g \<in> set (u_groups cu)) = (g_id g \<in> set (u_groups u'))"
        using same_id_same_groups [OF inv cu(1) mem _ g] True cu(2) by simp
      with True \<open>groupId \<in> set (u_groups cu)\<close> show ?thesis by simp
    next
      case False
      then show ?thesis by blast
    qed
    with mem show ?thesis by blast
  next
    case False
    with Some u' obtain u where u: "u \<in> set (allUsers (auth s))"
      and eq: "u' = (if u_id u = userId
                     then spread u (noUpdates\<lparr>p_groups := Some (u_groups cu @ [groupId])\<rparr>)
                     else u)"
      by (auto simp: handleAdd_users updateUser_def)
    show ?thesis
    proof (cases "u_id u = userId")
      case True
      have same: "(g_id g \<in> set (u_groups cu)) = (g_id g \<in> set (u_groups u))"
        if "g \<in> set (groups s)" for g
        using same_id_same_groups [OF inv cu(1) u _ that] True cu(2) by simp
      have "u_id u' = u_id u" "u_groups u' = u_groups cu @ [groupId]"
        using True by (simp_all add: eq spread_groups)
      with same True u show ?thesis by auto
    next
      case False
      then have "u' = u" by (simp add: eq)
      with False u show ?thesis by blast
    qed
  qed
qed

lemma handleAdd_consistent:
  assumes "membershipConsistent s"
  shows "membershipConsistent (handleAddUserToGroup userId groupId s)"
  by (rule membershipConsistent_transfer
        [where R = "\<lambda>b x y. b \<or> (x = userId \<and> y = groupId)", OF assms])
     (use handleAdd_user_side [OF assms] handleAdd_group_side in blast)+


subsection \<open>Removing\<close>

lemma handleRemove_groups:
  "groups (handleRemoveUserFromGroup userId groupId s) =
     map (\<lambda>g. if g_id g = groupId
               then g\<lparr>g_members := filter (\<lambda>m. m \<noteq> userId) (g_members g)\<rparr> else g) (groups s)"
  by (simp add: handleRemoveUserFromGroup_def Let_def split: option.split)

lemma handleRemove_users:
  "allUsers (auth (handleRemoveUserFromGroup userId groupId s)) =
     (case find (\<lambda>u. u_id u = userId) (allUsers (auth s)) of
        Some cu \<Rightarrow>
          updateUser userId
            (noUpdates\<lparr>p_groups := Some (filter (\<lambda>gId. gId \<noteq> groupId) (u_groups cu))\<rparr>)
            (allUsers (auth s))
      | None \<Rightarrow> allUsers (auth s))"
  by (simp add: handleRemoveUserFromGroup_def Let_def getAllUsers_def setAllUsers_def
      split: option.split)

lemma handleRemove_group_side:
  assumes "g' \<in> set (groups (handleRemoveUserFromGroup userId groupId s))"
  shows "\<exists>g \<in> set (groups s). g_id g' = g_id g \<and>
           (\<forall>x. (x \<in> set (g_members g')) =
                 (x \<in> set (g_members g) \<and> \<not> (x = userId \<and> g_id g = groupId)))"
proof -
  from assms obtain g where g: "g \<in> set (groups s)"
    and g': "g' = (if g_id g = groupId
                    then g\<lparr>g_members := filter (\<lambda>m. m \<noteq> userId) (g_members g)\<rparr> else g)"
    unfolding handleRemove_groups by auto
  have "g_id g' = g_id g" by (simp add: g')
  moreover have "\<forall>x. (x \<in> set (g_members g')) =
                 (x \<in> set (g_members g) \<and> \<not> (x = userId \<and> g_id g = groupId))"
    by (auto simp: g')
  ultimately show ?thesis using g by blast
qed

lemma handleRemove_user_side:
  assumes inv: "membershipConsistent s"
    and u': "u' \<in> set (allUsers (auth (handleRemoveUserFromGroup userId groupId s)))"
  shows "\<exists>u \<in> set (allUsers (auth s)). u_id u' = u_id u \<and>
           (\<forall>g \<in> set (groups s). (g_id g \<in> set (u_groups u')) =
                 (g_id g \<in> set (u_groups u) \<and> \<not> (u_id u = userId \<and> g_id g = groupId)))"
proof (cases "find (\<lambda>u. u_id u = userId) (allUsers (auth s))")
  case None
  with u' have mem: "u' \<in> set (allUsers (auth s))" by (simp add: handleRemove_users)
  with None have "u_id u' \<noteq> userId" by (auto dest: find_NoneD)
  with mem show ?thesis by blast
next
  case (Some cu)
  then have cu: "cu \<in> set (allUsers (auth s))" "u_id cu = userId"
    by (auto dest: find_SomeD)
  from Some u' obtain u where u: "u \<in> set (allUsers (auth s))"
    and eq: "u' = (if u_id u = userId
                   then spread u (noUpdates\<lparr>p_groups :=
                          Some (filter (\<lambda>gId. gId \<noteq> groupId) (u_groups cu))\<rparr>)
                   else u)"
    by (auto simp: handleRemove_users updateUser_def)
  show ?thesis
  proof (cases "u_id u = userId")
    case True
    have same: "(g_id g \<in> set (u_groups cu)) = (g_id g \<in> set (u_groups u))"
      if "g \<in> set (groups s)" for g
      using same_id_same_groups [OF inv cu(1) u _ that] True cu(2) by simp
    have "u_id u' = u_id u" "u_groups u' = filter (\<lambda>gId. gId \<noteq> groupId) (u_groups cu)"
      using True by (simp_all add: eq spread_groups)
    with same True u show ?thesis by auto
  next
    case False
    then have "u' = u" by (simp add: eq)
    with False u show ?thesis by blast
  qed
qed

lemma handleRemove_consistent:
  assumes "membershipConsistent s"
  shows "membershipConsistent (handleRemoveUserFromGroup userId groupId s)"
  by (rule membershipConsistent_transfer
        [where R = "\<lambda>b x y. b \<and> \<not> (x = userId \<and> y = groupId)", OF assms])
     (use handleRemove_user_side [OF assms] handleRemove_group_side in blast)+

subsection \<open>Deleting a user, regenerating a password\<close>

lemma handleDelete_groups:
  "groups (handleDeleteUser True userId s) =
     map (\<lambda>g. g\<lparr>g_members := filter (\<lambda>m. m \<noteq> userId) (g_members g)\<rparr>) (groups s)"
  by (simp add: handleDeleteUser_def Let_def)

lemma handleDelete_users:
  "allUsers (auth (handleDeleteUser True userId s)) =
     filter (\<lambda>u. u_id u \<noteq> userId) (allUsers (auth s))"
  by (simp add: handleDeleteUser_def Let_def deleteUser_def setAllUsers_def logout_def)

lemma handleDelete_consistent:
  assumes "membershipConsistent s"
  shows "membershipConsistent (handleDeleteUser confirmed userId s)"
proof (cases confirmed)
  case False
  with assms show ?thesis by (simp add: handleDeleteUser_def)
next
  case True
  have "membershipConsistent (handleDeleteUser True userId s)"
  proof (rule membershipConsistent_transfer [where R = "\<lambda>b x y. b \<and> x \<noteq> userId", OF assms])
    fix u' assume "u' \<in> set (allUsers (auth (handleDeleteUser True userId s)))"
    then have "u' \<in> set (allUsers (auth s))" "u_id u' \<noteq> userId"
      by (simp_all add: handleDelete_users)
    then show "\<exists>u \<in> set (allUsers (auth s)). u_id u' = u_id u \<and>
          (\<forall>g \<in> set (groups s).
             (g_id g \<in> set (u_groups u')) = (g_id g \<in> set (u_groups u) \<and> u_id u \<noteq> userId))"
      by blast
  next
    fix g' assume "g' \<in> set (groups (handleDeleteUser True userId s))"
    then obtain g where g: "g \<in> set (groups s)"
      and g': "g' = g\<lparr>g_members := filter (\<lambda>m. m \<noteq> userId) (g_members g)\<rparr>"
      unfolding handleDelete_groups by auto
    have "g_id g' = g_id g"
      "\<forall>x. (x \<in> set (g_members g')) = (x \<in> set (g_members g) \<and> x \<noteq> userId)"
      by (simp_all add: g')
    with g show "\<exists>g \<in> set (groups s). g_id g' = g_id g \<and>
          (\<forall>x. (x \<in> set (g_members g')) = (x \<in> set (g_members g) \<and> x \<noteq> userId))"
      by blast
  qed
  with True show ?thesis by simp
qed

lemma handlePasswordRegenerate_groups:
  "groups (handlePasswordRegenerate now userId newPassword s) = groups s"
  by (simp add: handlePasswordRegenerate_def Let_def split: option.split)

lemma handlePasswordRegenerate_users:
  "allUsers (auth (handlePasswordRegenerate now userId newPassword s)) =
     updateUserPassword now userId newPassword (allUsers (auth s))"
  by (simp add: handlePasswordRegenerate_def Let_def setAllUsers_def split: option.split)

lemma handlePasswordRegenerate_consistent:
  assumes "membershipConsistent s"
  shows "membershipConsistent (handlePasswordRegenerate now userId newPassword s)"
proof (rule membershipConsistent_transfer [where R = "\<lambda>b x y. b", OF assms])
  fix u' assume "u' \<in> set (allUsers (auth (handlePasswordRegenerate now userId newPassword s)))"
  then obtain u where u: "u \<in> set (allUsers (auth s))"
    and eq: "u' = (if u_id u = userId
                   then u\<lparr>u_password := Some newPassword, u_passwordGeneratedAt := Some now\<rparr>
                   else u)"
    by (auto simp: handlePasswordRegenerate_users updateUserPassword_def)
  have "u_id u' = u_id u" "u_groups u' = u_groups u" by (simp_all add: eq)
  with u show "\<exists>u \<in> set (allUsers (auth s)). u_id u' = u_id u \<and>
          (\<forall>g \<in> set (groups s). (g_id g \<in> set (u_groups u')) = (g_id g \<in> set (u_groups u)))"
    by auto
next
  fix g' assume "g' \<in> set (groups (handlePasswordRegenerate now userId newPassword s))"
  then show "\<exists>g \<in> set (groups s). g_id g' = g_id g \<and>
          (\<forall>x. (x \<in> set (g_members g')) = (x \<in> set (g_members g)))"
    by (auto simp: handlePasswordRegenerate_groups)
qed


subsection \<open>Creating users and groups\<close>

lemma membershipConsistent_new_users:
  assumes inv: "membershipConsistent s"
    and grps: "groups s' = groups s"
    and users: "allUsers (auth s') = allUsers (auth s) @ new"
    and new: "\<And>n. n \<in> set new \<Longrightarrow>
                u_groups n = [] \<and> (\<forall>g \<in> set (groups s). u_id n \<notin> set (g_members g))"
  shows "membershipConsistent s'"
  unfolding membershipConsistent_iff grps users
  using inv new by (auto simp: membershipConsistent_iff)

lemma membershipConsistent_new_group:
  assumes inv: "membershipConsistent s"
    and users: "allUsers (auth s') = allUsers (auth s)"
    and grps: "groups s' = groups s @ [grp]"
    and new: "g_members grp = []" "\<forall>u \<in> set (allUsers (auth s)). g_id grp \<notin> set (u_groups u)"
  shows "membershipConsistent s'"
  unfolding membershipConsistent_iff grps users
  using inv new by (auto simp: membershipConsistent_iff)

lemma handleCreateUser_consistent:
  assumes inv: "membershipConsistent s" and fresh: "freshUserId (toString now) s"
  shows "membershipConsistent (snd (handleCreateUser now password newUser s))"
proof (cases "getUserByEmail (f_email newUser) (auth s) = None
              \<and> getUserByEmployeeId (f_employeeId newUser) (auth s) = None")
  case False
  then have "getUserByEmail (f_email newUser) (auth s) \<noteq> None
       \<or> getUserByEmployeeId (f_employeeId newUser) (auth s) \<noteq> None"
    by auto
  then have "handleCreateUser now password newUser s
       = (Some ''User with this email or employee ID already exists!'', s)"
    by (rule handleCreateUser_dup)
  with inv show ?thesis by simp
next
  case True
  note new = handleCreateUser_new [OF conjunct1 [OF True] conjunct2 [OF True], of now password]
  show ?thesis
  proof (rule membershipConsistent_new_users [OF inv, where new = "[formUser now password newUser s]"])
    show "groups (snd (handleCreateUser now password newUser s)) = groups s"
      by (simp add: new)
    show "allUsers (auth (snd (handleCreateUser now password newUser s)))
            = allUsers (auth s) @ [formUser now password newUser s]"
      by (simp add: new)
    fix n assume "n \<in> set [formUser now password newUser s]"
    then have "u_groups n = []" "u_id n = toString now" by (simp_all add: formUser_def)
    with fresh show "u_groups n = [] \<and> (\<forall>g \<in> set (groups s). u_id n \<notin> set (g_members g))"
      by (simp add: freshUserId_def list_all_iff)
  qed
qed

lemma handleCreateGroup_consistent:
  assumes inv: "membershipConsistent s" and fresh: "freshGroupId (toString now) s"
  shows "membershipConsistent (snd (handleCreateGroup now newGroup s))"
proof (cases "trim (f_groupName newGroup) = []")
  case True
  with inv show ?thesis by (simp add: handleCreateGroup_def)
next
  case False
  let ?grp = "\<lparr>g_id = toString now, g_name = f_groupName newGroup,
                g_description = f_description newGroup, g_members = [],
                g_createdBy = sessionIdOr [] (auth s)\<rparr>"
  have s': "snd (handleCreateGroup now newGroup s) = s\<lparr>groups := groups s @ [?grp]\<rparr>"
    using False by (simp add: handleCreateGroup_def Let_def)
  show ?thesis
    unfolding s'
    by (rule membershipConsistent_new_group [OF inv, where grp = ?grp])
       (use fresh in \<open>simp_all add: freshGroupId_def list_all_iff\<close>)
qed

subsection \<open>Bulk upload\<close>

lemma processRows_success:
  "processRows a clock pwd i rows acc = Inr result \<Longrightarrow> n \<in> set (res_success result) \<Longrightarrow>
   n \<in> set (res_success acc) \<or>
   (u_groups n = [] \<and>
    (\<exists>k. i \<le> k \<and> k < i + length rows \<and> u_id n = toString (clock k) @ ''_'' @ toString k))"
proof (induction rows arbitrary: i acc)
  case Nil
  then show ?case by simp
next
  case (Cons userData rest)
  show ?case
  proof (cases "validateUserData a userData (i + 2)")
    case (Inl e)
    with Cons.prems(1) show ?thesis by simp
  next
    case (Inr validationErrors)
    show ?thesis
    proof (cases "length validationErrors > 0")
      case True
      let ?acc = "acc\<lparr>res_errors := res_errors acc @
                    [\<lparr>e_row = i + 2, e_error = join '', '' validationErrors,
                      e_data = Some userData\<rparr>]\<rparr>"
      from Cons.prems(1) Inr True
      have "processRows a clock pwd (i + 1) rest ?acc = Inr result" by simp
      from Cons.IH [OF this Cons.prems(2)]
      consider "n \<in> set (res_success acc)"
        | k where "i + 1 \<le> k" "k < i + 1 + length rest" "u_groups n = []"
            "u_id n = toString (clock k) @ ''_'' @ toString k"
        by auto
      then show ?thesis
      proof cases
        case 1
        then show ?thesis by simp
      next
        case 2
        then have "i \<le> k" "k < i + length (userData # rest)" by simp_all
        with 2 show ?thesis by blast
      qed
    next
      case False
      define newUser where "newUser =
                   \<lparr>u_id = toString (clock i) @ ''_'' @ toString i,
                    u_email = toLowerCase (cellText (row_Email userData)),
                    u_name = cellText (row_Name userData),
                    u_phone = cellText (row_Phone userData),
                    u_employeeId = cellText (row_EmployeeID userData),
                    u_location = cellText (row_Location userData),
                    u_isAdmin =
                      (map_option toLowerCase (row_IsAdmin userData) = Some ''true''),
                    u_groups = [], u_password = Some (pwd i),
                    u_passwordGeneratedAt = Some (clock i),
                    u_createdBy = Some (sessionIdOr ''bulk-upload'' a),
                    u_createdAt = None\<rparr>"
      let ?acc = "acc\<lparr>res_success := res_success acc @ [newUser],
                          res_passwords := res_passwords acc @
                            [\<lparr>gp_userId = u_id newUser, gp_userName = u_name newUser,
                              gp_email = u_email newUser, gp_password = pwd i\<rparr>]\<rparr>"
      from Cons.prems(1) Inr False
      have "processRows a clock pwd (i + 1) rest ?acc = Inr result"
        by (simp add: Let_def newUser_def)
      from Cons.IH [OF this Cons.prems(2)]
      consider "n \<in> set (res_success acc)" | "n = newUser"
        | k where "i + 1 \<le> k" "k < i + 1 + length rest" "u_groups n = []"
            "u_id n = toString (clock k) @ ''_'' @ toString k"
        by auto
      then show ?thesis
      proof cases
        case 1
        then show ?thesis by simp
      next
        case 2
        then have "u_groups n = []" "u_id n = toString (clock i) @ ''_'' @ toString i"
          by (simp_all add: newUser_def)
        then show ?thesis by auto
      next
        case 3
        then have "i \<le> k" "k < i + length (userData # rest)" by simp_all
        with 3 show ?thesis by blast
      qed
    qed
  qed
qed

lemma processBulkUpload_consistent:
  assumes inv: "membershipConsistent s"
    and fresh: "list_all (\<lambda>i. freshUserId (toString (clock i) @ ''_'' @ toString i) s)
                  [0..<length jsonData]"
  shows "membershipConsistent (processBulkUpload clock pwd now jsonData s)"
proof (cases "processRows (auth s) clock pwd 0 jsonData
                \<lparr>res_success = [], res_errors = [], res_passwords = []\<rparr>")
  case (Inl e)
  then have "groups (processBulkUpload clock pwd now jsonData s) = groups s"
    "allUsers (auth (processBulkUpload clock pwd now jsonData s)) = allUsers (auth s)"
    by (simp_all add: processBulkUpload_def)
  with inv show ?thesis by (simp add: membershipConsistent_iff)
next
  case (Inr result)
  let ?new = "map (\<lambda>u. u\<lparr>u_createdAt := Some now\<rparr>)
                (filter (\<lambda>newUser. \<not> list_ex (sameIdentity newUser) (allUsers (auth s)))
                   (res_success result))"
  show ?thesis
  proof (rule membershipConsistent_new_users [OF inv, where new = ?new])
    show "groups (processBulkUpload clock pwd now jsonData s) = groups s"
      using Inr by (simp add: processBulkUpload_def Let_def)
    show "allUsers (auth (processBulkUpload clock pwd now jsonData s)) = allUsers (auth s) @ ?new"
      using Inr by (simp add: processBulkUpload_def Let_def setAllUsers_def addUsers_def)
    fix n assume "n \<in> set ?new"
    then obtain m where m: "m \<in> set (res_success result)"
      and n: "n = m\<lparr>u_createdAt := Some now\<rparr>" by auto
    from processRows_success [OF Inr m] obtain k where
      k: "k < length jsonData" "u_groups m = []"
         "u_id m = toString (clock k) @ ''_'' @ toString k"
      by auto
    from fresh k(1) have "freshUserId (toString (clock k) @ ''_'' @ toString k) s"
      by (simp add: list_all_iff)
    then have "\<forall>g \<in> set (groups s). u_id m \<notin> set (g_members g)"
      by (simp add: freshUserId_def list_all_iff k(3))
    with k(2) show "u_groups n = [] \<and> (\<forall>g \<in> set (groups s). u_id n \<notin> set (g_members g))"
      by (simp add: n)
  qed
qed

subsection \<open>The invariant\<close>

lemma reachableAdmin_consistent:
  "reachableAdmin t0 s \<Longrightarrow> membershipConsistent s"
proof (induction rule: reachableAdmin.induct)
  case (start s)
  then show ?case by (simp add: membershipConsistent_iff)
next
  case (createUser s now password newUser)
  then show ?case by (simp add: handleCreateUser_consistent)
next
  case (createGroup s now newGroup)
  then show ?case by (simp add: handleCreateGroup_consistent)
next
  case (addToGroup s userId groupId)
  then show ?case by (simp add: handleAdd_consistent)
next
  case (removeFromGroup s userId groupId)
  then show ?case by (simp add: handleRemove_consistent)
next
  case (regenerate s now userId newPassword)
  then show ?case by (simp add: handlePasswordRegenerate_consistent)
next
  case (delete s confirmed userId)
  then show ?case by (simp add: handleDelete_consistent)
next
  case (bulkUpload s clock jsonData pwd now)
  then show ?case by (simp add: processBulkUpload_consistent)
qed

subsection \<open>Both sides after adding and after removing\<close>

lemma updateUser_groups_ids:
  "map u_id (updateUser userId (noUpdates\<lparr>p_groups := Some gs\<rparr>) us) = map u_id us"
  by (induction us) (simp_all add: updateUser_def spread_groups)

lemma map_members_ids:
  "map g_id (map (\<lambda>g. if P g then g\<lparr>g_members := h g\<rparr> else g) gs) = map g_id gs"
  by (induction gs) simp_all

lemma handleAdd_ids:
  "map u_id (allUsers (auth (handleAddUserToGroup userId groupId s))) = map u_id (allUsers (auth s))"
  "map g_id (groups (handleAddUserToGroup userId groupId s)) = map g_id (groups s)"
  by (simp_all add: handleAdd_users handleAdd_groups updateUser_groups_ids map_members_ids
      split: option.split)

lemma handleRemove_ids:
  "map u_id (allUsers (auth (handleRemoveUserFromGroup userId groupId s))) = map u_id (allUsers (auth s))"
  "map g_id (groups (handleRemoveUserFromGroup userId groupId s)) = map g_id (groups s)"
  by (simp_all add: handleRemove_users handleRemove_groups updateUser_groups_ids map_members_ids
      split: option.split)

lemma list_ex_id: "list_ex (\<lambda>x. f x = i) xs \<longleftrightarrow> i \<in> set (map f xs)"
  by (auto simp: list_ex_iff)

lemma add_both_sides:
  assumes inv: "membershipConsistent s"
    and u: "u \<in> set (allUsers (auth s))" and g: "g \<in> set (groups s)"
  shows "groupHasMember (g_id g) (u_id u) (handleAddUserToGroup (u_id u) (g_id g) s)"
    and "userHasGroup (u_id u) (g_id g) (handleAddUserToGroup (u_id u) (g_id g) s)"
proof -
  let ?s' = "handleAddUserToGroup (u_id u) (g_id g) s"
  have "list_ex (\<lambda>x. g_id x = g_id g) (groups ?s')"
    unfolding list_ex_id handleAdd_ids using g by simp
  moreover have "u_id u \<in> set (g_members g')"
    if "g' \<in> set (groups ?s')" "g_id g' = g_id g" for g'
  proof -
    from handleAdd_group_side [OF that(1)] obtain g0 where "g0 \<in> set (groups s)"
      and g0c: "g_id g' = g_id g0 \<and>
      (\<forall>x. (x \<in> set (g_members g')) =
           (x \<in> set (g_members g0) \<or> (x = u_id u \<and> g_id g0 = g_id g)))" ..
    note g0 = conjunct1 [OF g0c] conjunct2 [OF g0c]
    from g0(2) have "(u_id u \<in> set (g_members g')) =
           (u_id u \<in> set (g_members g0) \<or> (u_id u = u_id u \<and> g_id g0 = g_id g))" ..
    then show ?thesis using g0(1) that(2) by simp
  qed
  ultimately show "groupHasMember (g_id g) (u_id u) ?s'"
    by (simp add: groupHasMember_def list_all_iff)
  have "list_ex (\<lambda>x. u_id x = u_id u) (allUsers (auth ?s'))"
    unfolding list_ex_id handleAdd_ids using u by simp
  moreover have "g_id g \<in> set (u_groups u')"
    if "u' \<in> set (allUsers (auth ?s'))" "u_id u' = u_id u" for u'
  proof -
    from handleAdd_user_side [OF inv that(1)] obtain u0 where "u0 \<in> set (allUsers (auth s))"
      and u0c: "u_id u' = u_id u0 \<and>
      (\<forall>x \<in> set (groups s). (g_id x \<in> set (u_groups u')) =
           (g_id x \<in> set (u_groups u0) \<or> (u_id u0 = u_id u \<and> g_id x = g_id g)))" ..
    note u0 = conjunct1 [OF u0c] conjunct2 [OF u0c]
    from u0(2) g have "(g_id g \<in> set (u_groups u')) =
           (g_id g \<in> set (u_groups u0) \<or> (u_id u0 = u_id u \<and> g_id g = g_id g))" ..
    then show ?thesis using u0(1) that(2) by simp
  qed
  ultimately show "userHasGroup (u_id u) (g_id g) ?s'"
    by (simp add: userHasGroup_def list_all_iff)
qed

lemma remove_both_sides:
  assumes inv: "membershipConsistent s"
    and u: "u \<in> set (allUsers (auth s))" and g: "g \<in> set (groups s)"
  shows "groupLacksMember (g_id g) (u_id u) (handleRemoveUserFromGroup (u_id u) (g_id g) s)"
    and "userLacksGroup (u_id u) (g_id g) (handleRemoveUserFromGroup (u_id u) (g_id g) s)"
proof -
  let ?s' = "handleRemoveUserFromGroup (u_id u) (g_id g) s"
  have "list_ex (\<lambda>x. g_id x = g_id g) (groups ?s')"
    unfolding list_ex_id handleRemove_ids using g by simp
  moreover have "u_id u \<notin> set (g_members g')"
    if "g' \<in> set (groups ?s')" "g_id g' = g_id g" for g'
  proof -
    from handleRemove_group_side [OF that(1)] obtain g0 where "g0 \<in> set (groups s)"
      and g0c: "g_id g' = g_id g0 \<and>
      (\<forall>x. (x \<in> set (g_members g')) =
           (x \<in> set (g_members g0) \<and> \<not> (x = u_id u \<and> g_id g0 = g_id g)))" ..
    note g0 = conjunct1 [OF g0c] conjunct2 [OF g0c]
    from g0(2) have "(u_id u \<in> set (g_members g')) =
           (u_id u \<in> set (g_members g0) \<and> \<not> (u_id u = u_id u \<and> g_id g0 = g_id g))" ..
    then show ?thesis using g0(1) that(2) by simp
  qed
  ultimately show "groupLacksMember (g_id g) (u_id u) ?s'"
    by (simp add: groupLacksMember_def list_all_iff)
  have "list_ex (\<lambda>x. u_id x = u_id u) (allUsers (auth ?s'))"
    unfolding list_ex_id handleRemove_ids using u by simp
  moreover have "g_id g \<notin> set (u_groups u')"
    if "u' \<in> set (allUsers (auth ?s'))" "u_id u' = u_id u" for u'
  proof -
    from handleRemove_user_side [OF inv that(1)] obtain u0 where "u0 \<in> set (allUsers (auth s))"
      and u0c: "u_id u' = u_id u0 \<and>
      (\<forall>x \<in> set (groups s). (g_id x \<in> set (u_groups u')) =
           (g_id x \<in> set (u_groups u0) \<and> \<not> (u_id u0 = u_id u \<and> g_id x = g_id g)))" ..
    note u0 = conjunct1 [OF u0c] conjunct2 [OF u0c]
    from u0(2) g have "(g_id g \<in> set (u_groups u')) =
           (g_id g \<in> set (u_groups u0) \<and> \<not> (u_id u0 = u_id u \<and> g_id g = g_id g))" ..
    then show ?thesis using u0(1) that(2) by simp
  qed
  ultimately show "userLacksGroup (u_id u) (g_id g) ?s'"
    by (simp add: userLacksGroup_def list_all_iff)
qed

text \<open>
  Claim C5. In every state that the admin portal reaches, the two sides of every
  membership agree. For every user and group of such a state, adding the user to the
  group leaves the group with the user's id among its members and the user with the
  group's id among its groups, and removing leaves neither; the states after adding and
  after removing are reachable states again.
\<close>

theorem group_membership_bidirectional:
  assumes "reachableAdmin t0 s"
  shows "membershipConsistent s \<and>
    (\<forall>u \<in> set (allUsers (auth s)). \<forall>g \<in> set (groups s).
       groupHasMember (g_id g) (u_id u) (handleAddUserToGroup (u_id u) (g_id g) s)
     \<and> userHasGroup (u_id u) (g_id g) (handleAddUserToGroup (u_id u) (g_id g) s)
     \<and> groupLacksMember (g_id g) (u_id u) (handleRemoveUserFromGroup (u_id u) (g_id g) s)
     \<and> userLacksGroup (u_id u) (g_id g) (handleRemoveUserFromGroup (u_id u) (g_id g) s)
     \<and> reachableAdmin t0 (handleAddUserToGroup (u_id u) (g_id g) s)
     \<and> reachableAdmin t0 (handleRemoveUserFromGroup (u_id u) (g_id g) s))"
proof -
  have inv: "membershipConsistent s" using assms by (rule reachableAdmin_consistent)
  have step: "groupHasMember (g_id g) (u_id u) (handleAddUserToGroup (u_id u) (g_id g) s)
     \<and> userHasGroup (u_id u) (g_id g) (handleAddUserToGroup (u_id u) (g_id g) s)
     \<and> groupLacksMember (g_id g) (u_id u) (handleRemoveUserFromGroup (u_id u) (g_id g) s)
     \<and> userLacksGroup (u_id u) (g_id g) (handleRemoveUserFromGroup (u_id u) (g_id g) s)
     \<and> reachableAdmin t0 (handleAddUserToGroup (u_id u) (g_id g) s)
     \<and> reachableAdmin t0 (handleRemoveUserFromGroup (u_id u) (g_id g) s)"
    if "u \<in> set (allUsers (auth s))" "g \<in> set (groups s)" for u g
    by (intro conjI add_both_sides [OF inv that] remove_both_sides [OF inv that]
        reachableAdmin.addToGroup [OF assms] reachableAdmin.removeFromGroup [OF assms])
  have "\<forall>u \<in> set (allUsers (auth s)). \<forall>g \<in> set (groups s).
       groupHasMember (g_id g) (u_id u) (handleAddUserToGroup (u_id u) (g_id g) s)
     \<and> userHasGroup (u_id u) (g_id g) (handleAddUserToGroup (u_id u) (g_id g) s)
     \<and> groupLacksMember (g_id g) (u_id u) (handleRemoveUserFromGroup (u_id u) (g_id g) s)
     \<and> userLacksGroup (u_id u) (g_id g) (handleRemoveUserFromGroup (u_id u) (g_id g) s)
     \<and> reachableAdmin t0 (handleAddUserToGroup (u_id u) (g_id g) s)
     \<and> reachableAdmin t0 (handleRemoveUserFromGroup (u_id u) (g_id g) s)"
    by (intro ballI) (rule step)
  with inv show ?thesis by (rule conjI)
qed

lemma bob_created:
  "handleCreateUser 1700000000000 ''HappyTiger123'' bobForm (adminPortal 0) =
     (None, (adminPortal 0)\<lparr>auth := (auth (adminPortal 0))\<lparr>allUsers :=
               allUsers (auth (adminPortal 0)) @
                 [formUser 1700000000000 ''HappyTiger123'' bobForm (adminPortal 0)]\<rparr>,
        generatedPasswords := [\<lparr>gp_userId = toString 1700000000000, gp_userName = f_name bobForm,
                      gp_email = f_email bobForm, gp_password = ''HappyTiger123''\<rparr>]\<rparr>)"
proof -
  have g1: "getUserByEmail (f_email bobForm) (auth (adminPortal 0)) = None"
    by (simp add: getUserByEmail_def adminPortal_users initialUsers_def bobForm_def
        toLowerCase_def toLowerChar_def)
  have g2: "getUserByEmployeeId (f_employeeId bobForm) (auth (adminPortal 0)) = None"
    by (simp add: getUserByEmployeeId_def adminPortal_users initialUsers_def bobForm_def)
  show ?thesis by (rule handleCreateUser_new [OF g1 g2])
qed

lemma adminPortal_groups: "groups (adminPortal t0) = []"
  by (simp add: adminPortal_def)

lemma salesPortal_state:
  "allUsers (auth salesPortal)
     = initialUsers 0 @ [formUser 1700000000000 ''HappyTiger123'' bobForm (adminPortal 0)]"
  "map g_id (groups salesPortal) = [''1700000000500'']"
  "map g_members (groups salesPortal) = [[]]"
proof -
  have t: "trim (f_groupName salesForm) \<noteq> []"
    by (simp add: salesForm_def trim_def isSpace_def)
  have id: "toString 1700000000500 = ''1700000000500''"
    by (simp add: toString.simps)
  show "allUsers (auth salesPortal)
     = initialUsers 0 @ [formUser 1700000000000 ''HappyTiger123'' bobForm (adminPortal 0)]"
    using t by (simp add: salesPortal_def handleCreateGroup_def Let_def bob_created
        adminPortal_users)
  show "map g_id (groups salesPortal) = [''1700000000500'']"
    using t by (simp add: salesPortal_def handleCreateGroup_def Let_def bob_created
        adminPortal_groups id)
  show "map g_members (groups salesPortal) = [[]]"
    using t by (simp add: salesPortal_def handleCreateGroup_def Let_def bob_created
        adminPortal_groups)
qed

lemma salesPortal_reachable: "reachableAdmin 0 salesPortal"
  unfolding salesPortal_def
proof (rule reachableAdmin.createGroup [OF reachableAdmin.createUser [OF reachableAdmin.start]])
  show "allUsers (auth (adminPortal 0)) = initialUsers 0" by (rule adminPortal_users)
  show "groups (adminPortal 0) = []" by (rule adminPortal_groups)
  have id: "toString 1700000000000 = ''1700000000000''"
    by (simp add: toString.simps)
  show "freshUserId (toString 1700000000000) (adminPortal 0)"
    by (simp add: freshUserId_def adminPortal_users adminPortal_groups initialUsers_def id)
  show "freshGroupId (toString 1700000000500)
     (snd (handleCreateUser 1700000000000 ''HappyTiger123'' bobForm (adminPortal 0)))"
    by (simp add: freshGroupId_def bob_created adminPortal_users adminPortal_groups
        initialUsers_def formUser_def)
qed

theorem group_membership_bidirectional_witness:
  "reachableAdmin 0 salesPortal
   \<and> membershipConsistent salesPortal
   \<and> groupHasMember ''1700000000500'' ''1700000000000''
        (handleAddUserToGroup ''1700000000000'' ''1700000000500'' salesPortal)
   \<and> userHasGroup ''1700000000000'' ''1700000000500''
        (handleAddUserToGroup ''1700000000000'' ''1700000000500'' salesPortal)
   \<and> groupLacksMember ''1700000000500'' ''1700000000000''
        (handleRemoveUserFromGroup ''1700000000000'' ''1700000000500''
           (handleAddUserToGroup ''1700000000000'' ''1700000000500'' salesPortal))
   \<and> userLacksGroup ''1700000000000'' ''1700000000500''
        (handleRemoveUserFromGroup ''1700000000000'' ''1700000000500''
           (handleAddUserToGroup ''1700000000000'' ''1700000000500'' salesPortal))"
proof -
  let ?u = "formUser 1700000000000 ''HappyTiger123'' bobForm (adminPortal 0)"
  let ?added = "handleAddUserToGroup ''1700000000000'' ''1700000000500'' salesPortal"
  have uid: "u_id ?u = ''1700000000000''"
    by (simp add: formUser_def toString.simps)
  have u: "?u \<in> set (allUsers (auth salesPortal))"
    by (simp add: salesPortal_state)
  obtain g where g: "g \<in> set (groups salesPortal)" "g_id g = ''1700000000500''"
    using salesPortal_state(2) by (cases "groups salesPortal") auto
  note r = salesPortal_reachable
  from group_membership_bidirectional [OF r] have
    inv: "membershipConsistent salesPortal" and
    all: "\<forall>u \<in> set (allUsers (auth salesPortal)). \<forall>g \<in> set (groups salesPortal).
       groupHasMember (g_id g) (u_id u) (handleAddUserToGroup (u_id u) (g_id g) salesPortal)
     \<and> userHasGroup (u_id u) (g_id g) (handleAddUserToGroup (u_id u) (g_id g) salesPortal)
     \<and> groupLacksMember (g_id g) (u_id u) (handleRemoveUserFromGroup (u_id u) (g_id g) salesPortal)
     \<and> userLacksGroup (u_id u) (g_id g) (handleRemoveUserFromGroup (u_id u) (g_id g) salesPortal)
     \<and> reachableAdmin 0 (handleAddUserToGroup (u_id u) (g_id g) salesPortal)
     \<and> reachableAdmin 0 (handleRemoveUserFromGroup (u_id u) (g_id g) salesPortal)"
    by (rule conjunct1, rule conjunct2)
  from bspec [OF bspec [OF all u] g(1)] have
    a1: "groupHasMember ''1700000000500'' ''1700000000000'' ?added"
    and a2: "userHasGroup ''1700000000000'' ''1700000000500'' ?added"
    and r': "reachableAdmin 0 ?added"
    by (simp_all add: uid g(2))
  obtain u' where u': "u' \<in> set (allUsers (auth ?added))" "u_id u' = ''1700000000000''"
    using a2 by (auto simp: userHasGroup_def list_ex_iff)
  obtain g' where g': "g' \<in> set (groups ?added)" "g_id g' = ''1700000000500''"
    using a1 by (auto simp: groupHasMember_def list_ex_iff)
  from group_membership_bidirectional [OF r'] have
    all': "\<forall>u \<in> set (allUsers (auth ?added)). \<forall>g \<in> set (groups ?added).
       groupHasMember (g_id g) (u_id u) (handleAddUserToGroup (u_id u) (g_id g) ?added)
     \<and> userHasGroup (u_id u) (g_id g) (handleAddUserToGroup (u_id u) (g_id g) ?added)
     \<and> groupLacksMember (g_id g) (u_id u) (handleRemoveUserFromGroup (u_id u) (g_id g) ?added)
     \<and> userLacksGroup (u_id u) (g_id g) (handleRemoveUserFromGroup (u_id u) (g_id g) ?added)
     \<and> reachableAdmin 0 (handleAddUserToGroup (u_id u) (g_id g) ?added)
     \<and> reachableAdmin 0 (handleRemoveUserFromGroup (u_id u) (g_id g) ?added)"
    by (rule conjunct2)
  from bspec [OF bspec [OF all' u'(1)] g'(1)] have
    b1: "groupLacksMember ''1700000000500'' ''1700000000000''
           (handleRemoveUserFromGroup ''1700000000000'' ''1700000000500'' ?added)"
    and b2: "userLacksGroup ''1700000000000'' ''1700000000500''
           (handleRemoveUserFromGroup ''1700000000000'' ''1700000000500'' ?added)"
    by (simp_all add: u'(2) g'(2))
  from r inv a1 a2 b1 b2 show ?thesis by (intro conjI)
qed

end
